theory Spec2Isabelle
  imports Complex_Main
begin

section \<open>Path planning, smoothing and trajectory resampling of the drone simulator\<close>

text \<open>
  The embedding follows \<^verbatim>\<open>PathPlanner.ts\<close> (classes \<^verbatim>\<open>AStarPlanner\<close>,
  \<^verbatim>\<open>RRTPlanner\<close>, \<^verbatim>\<open>TrajectorySmoothing\<close>) and
  \<^verbatim>\<open>DroneSimulatorV2.generateTrajectoryFromPath\<close>.

  Numbers. A JavaScript \<^verbatim>\<open>number\<close> is modelled by a real: finite values with exact
  arithmetic, no rounding. The only places where the source can produce a value that is
  not a finite number from finite inputs are divisions, so every division whose divisor
  may be zero goes through \<open>jsdiv\<close>, which answers \<open>None\<close> when the quotient is not a
  finite number (\<^verbatim>\<open>0/0\<close> is NaN, \<^verbatim>\<open>x/0\<close> is an infinity), and the model then
  follows what the source does with that value.

  Names. The fields \<^verbatim>\<open>x\<close>, \<^verbatim>\<open>y\<close>, \<^verbatim>\<open>z\<close> of \<^verbatim>\<open>Vector3\<close> are \<open>vx\<close>, \<open>vy\<close>, \<open>vz\<close>
  and the fields of \<^verbatim>\<open>PathNode\<close> carry the prefix \<open>node_\<close>, so that they do not
  capture variable names.
\<close>

subsection \<open>Data model\<close>

record Vector3 =
  vx :: real
  vy :: real
  vz :: real

record Obstacle =
  position :: Vector3
  radius :: real

record PathPlanningConfig =
  startPos :: Vector3
  endPos :: Vector3
  obstacles :: "Obstacle list"
  gridSize :: real
  droneRadius :: real
  maxIterations :: nat

datatype PathNode =
  PathNode (node_position: Vector3) (node_g: real) (node_h: real) (node_parent: "PathNode option")

text \<open>The quotient of two finite numbers, \<open>None\<close> when it is NaN or an infinity.\<close>

definition jsdiv :: "real \<Rightarrow> real \<Rightarrow> real option" where
  "jsdiv a b = (if b = 0 then None else Some (a / b))"

subsection \<open>Collision queries (shared by both planners)\<close>

definition distance :: "Vector3 \<Rightarrow> Vector3 \<Rightarrow> real" where
  "distance a b =
     (let dx = vx a - vx b; dy = vy a - vy b; dz = vz a - vz b
      in sqrt (dx * dx + dy * dy + dz * dz))"

text \<open>
  \<^verbatim>\<open>isPointClear\<close>: false as soon as one obstacle is closer than its radius plus the drone
  radius plus the buffer of 2.
\<close>

definition isPointClear :: "PathPlanningConfig \<Rightarrow> Vector3 \<Rightarrow> bool" where
  "isPointClear cfg point =
     list_all (\<lambda>obstacle.
        \<not> distance point (position obstacle) < radius obstacle + droneRadius cfg + 2)
       (obstacles cfg)"

definition interpolate :: "Vector3 \<Rightarrow> Vector3 \<Rightarrow> real \<Rightarrow> Vector3" where
  "interpolate a b t =
     \<lparr>vx = vx a + (vx b - vx a) * t,
      vy = vy a + (vy b - vy a) * t,
      vz = vz a + (vz b - vz a) * t\<rparr>"

text \<open>
  \<^verbatim>\<open>isPathClear\<close>: \<^verbatim>\<open>steps = Math.ceil(distance / 2)\<close> and the samples
  \<^verbatim>\<open>i = 0 .. steps\<close> at \<^verbatim>\<open>t = i / steps\<close>. When \<open>steps\<close> is 0 the single sample
  has \<^verbatim>\<open>t = 0/0\<close>, a NaN: its coordinates are NaN, its distance to every obstacle is
  NaN, and \<^verbatim>\<open>dist < ...\<close> is false for a NaN, so \<^verbatim>\<open>isPointClear\<close> answers true for
  that sample.
\<close>

definition sampleClear :: "PathPlanningConfig \<Rightarrow> Vector3 \<Rightarrow> Vector3 \<Rightarrow> int \<Rightarrow> int \<Rightarrow> bool" where
  "sampleClear cfg a b steps i =
     (case jsdiv (of_int i) (of_int steps) of
        None \<Rightarrow> True
      | Some t \<Rightarrow> isPointClear cfg (interpolate a b t))"

definition isPathClear :: "PathPlanningConfig \<Rightarrow> Vector3 \<Rightarrow> Vector3 \<Rightarrow> bool" where
  "isPathClear cfg a b =
     (let steps = \<lceil>distance a b / 2\<rceil>
      in list_all (sampleClear cfg a b steps) [0..steps])"

subsection \<open>The grid planner \<^verbatim>\<open>AStarPlanner\<close>\<close>

text \<open>
  The planner object holds \<^verbatim>\<open>openSet\<close>, \<^verbatim>\<open>closedSet\<close> and \<^verbatim>\<open>nodeMap\<close> as instance
  fields, initialised empty by the constructor; \<^verbatim>\<open>plan\<close> reads and writes them, so it is
  modelled as a function from the state before the call to the path and the state after.
  The key of \<^verbatim>\<open>getNodeKey\<close> is the string of the three rounded coordinates, modelled
  as the triple of integers; \<^verbatim>\<open>Math.round\<close> rounds half up.
\<close>

type_synonym NodeKey = "int \<times> int \<times> int"

record AStarState =
  openSet :: "PathNode list"
  closedSet :: "PathNode list"
  nodeMap :: "NodeKey \<Rightarrow> PathNode option"

definition newAStarPlanner :: AStarState where
  "newAStarPlanner = \<lparr>openSet = [], closedSet = [], nodeMap = Map.empty\<rparr>"

definition mathRound :: "real \<Rightarrow> int" where
  "mathRound v = \<lfloor>v + 1 / 2\<rfloor>"

definition getNodeKey :: "Vector3 \<Rightarrow> NodeKey" where
  "getNodeKey pos =
     (let precision = 1
      in (mathRound (vx pos / precision) * precision,
          mathRound (vy pos / precision) * precision,
          mathRound (vz pos / precision) * precision))"

definition directions :: "(int \<times> int \<times> int) list" where
  "directions =
     [(dx, dy, dz). dx \<leftarrow> [-1, 0, 1], dy \<leftarrow> [-1, 0, 1], dz \<leftarrow> [-1, 0, 1],
                    \<not> (dx = 0 \<and> dy = 0 \<and> dz = 0)]"

definition neighborAt :: "PathPlanningConfig \<Rightarrow> PathNode \<Rightarrow> int \<times> int \<times> int \<Rightarrow> Vector3" where
  "neighborAt cfg node d =
     (case d of (dx, dy, dz) \<Rightarrow>
        let step = gridSize cfg
        in \<lparr>vx = vx (node_position node) + of_int dx * step,
            vy = vy (node_position node) + of_int dy * step,
            vz = vz (node_position node) + of_int dz * step\<rparr>)"

definition neighborOk :: "PathPlanningConfig \<Rightarrow> PathNode \<Rightarrow> Vector3 \<Rightarrow> bool" where
  "neighborOk cfg node neighbor =
     (vy neighbor \<ge> 0 \<and> vy neighbor \<le> 100 \<and> isPointClear cfg neighbor
      \<and> isPathClear cfg (node_position node) neighbor)"

definition getNeighbors :: "PathPlanningConfig \<Rightarrow> PathNode \<Rightarrow> Vector3 list" where
  "getNeighbors cfg node = filter (neighborOk cfg node) (map (neighborAt cfg node) directions)"

text \<open>
  \<^verbatim>\<open>getAlternativePath\<close>: start, the midpoint raised by 20 above the higher of start and
  goal when the segment from start to it is clear, goal.
\<close>

definition midPoint :: "PathPlanningConfig \<Rightarrow> Vector3" where
  "midPoint cfg =
     \<lparr>vx = (vx (startPos cfg) + vx (endPos cfg)) / 2,
      vy = max (vy (startPos cfg)) (vy (endPos cfg)) + 20,
      vz = (vz (startPos cfg) + vz (endPos cfg)) / 2\<rparr>"

definition getAlternativePath :: "PathPlanningConfig \<Rightarrow> Vector3 list" where
  "getAlternativePath cfg =
     [startPos cfg]
     @ (if isPathClear cfg (startPos cfg) (midPoint cfg) then [midPoint cfg] else [])
     @ [endPos cfg]"

text \<open>\<^verbatim>\<open>reconstructPath\<close> of the grid planner: the positions along the parent references, root first.\<close>

fun walkParents :: "PathNode \<Rightarrow> Vector3 list \<Rightarrow> Vector3 list" where
  "walkParents (PathNode pos gc hc None) path = pos # path"
| "walkParents (PathNode pos gc hc (Some p)) path = walkParents p (pos # path)"

definition reconstructPath :: "PathNode \<Rightarrow> Vector3 list" where
  "reconstructPath node = walkParents node []"

text \<open>
  The scan for the open node of least \<open>f = g + h\<close>. The accumulator is \<open>None\<close> while
  \<^verbatim>\<open>minF\<close> is still \<^verbatim>\<open>Infinity\<close> and \<^verbatim>\<open>current\<close> is null; a node replaces the best so far
  only when its \<open>f\<close> is strictly smaller.
\<close>

fun findMin :: "PathNode list \<Rightarrow> nat \<Rightarrow> (real \<times> PathNode \<times> nat) option \<Rightarrow> (real \<times> PathNode \<times> nat) option" where
  "findMin [] i best = best"
| "findMin (node # rest) i best =
     (let f = node_g node + node_h node
      in findMin rest (Suc i)
           (case best of
              None \<Rightarrow> Some (f, node, i)
            | Some (minF, current, minIndex) \<Rightarrow>
                if f < minF then Some (f, node, i) else best))"

definition splice1 :: "nat \<Rightarrow> 'a list \<Rightarrow> 'a list" where
  "splice1 i xs = take i xs @ drop (Suc i) xs"

text \<open>
  The body of the loop over the neighbours of \<open>current\<close>: \<open>keyClosed\<close> is the
  \<^verbatim>\<open>closedSet.some(...)\<close> test, \<open>tentativeG\<close> the cost through \<open>current\<close> and
  \<open>newNeighbor\<close> the node built for the neighbour.
\<close>

definition keyClosed :: "AStarState \<Rightarrow> NodeKey \<Rightarrow> bool" where
  "keyClosed st key = list_ex (\<lambda>n. getNodeKey (node_position n) = key) (closedSet st)"

definition tentativeG :: "PathNode \<Rightarrow> Vector3 \<Rightarrow> real" where
  "tentativeG current neighborPos =
     node_g current + distance (node_position current) neighborPos"

definition newNeighbor :: "PathNode \<Rightarrow> PathPlanningConfig \<Rightarrow> Vector3 \<Rightarrow> PathNode" where
  "newNeighbor current cfg neighborPos =
     PathNode neighborPos (tentativeG current neighborPos)
       (distance neighborPos (endPos cfg)) (Some current)"

definition visitNeighbor :: "PathNode \<Rightarrow> PathPlanningConfig \<Rightarrow> AStarState \<Rightarrow> Vector3 \<Rightarrow> AStarState" where
  "visitNeighbor current cfg st neighborPos =
     (let key = getNodeKey neighborPos
      in if keyClosed st key then st
         else if (case nodeMap st key of
                    Some existingNode \<Rightarrow> tentativeG current neighborPos \<ge> node_g existingNode
                  | None \<Rightarrow> False)
         then st
         else st\<lparr>openSet := openSet st @ [newNeighbor current cfg neighborPos],
                 nodeMap := (nodeMap st)(key \<mapsto> newNeighbor current cfg neighborPos)\<rparr>)"

text \<open>
  The main loop, by the number of iterations that remain (\<^verbatim>\<open>maxIterations\<close> is a
  count, a natural number). The first equation is the exit of the \<^verbatim>\<open>for\<close> loop when
  \<^verbatim>\<open>maxIterations\<close> is used up.
\<close>

fun search :: "PathPlanningConfig \<Rightarrow> nat \<Rightarrow> AStarState \<Rightarrow> Vector3 list \<times> AStarState" where
  "search cfg 0 st = (getAlternativePath cfg, st)"
| "search cfg (Suc n) st =
     (if openSet st = [] then
        (if isPathClear cfg (startPos cfg) (endPos cfg)
         then ([startPos cfg, endPos cfg], st)
         else (getAlternativePath cfg, st))
      else
        case findMin (openSet st) 0 None of
          None \<Rightarrow> (getAlternativePath cfg, st)
        | Some (minF, current, minIndex) \<Rightarrow>
            if distance (node_position current) (endPos cfg) < gridSize cfg * 2
               \<and> isPathClear cfg (node_position current) (endPos cfg)
            then (reconstructPath current @ [endPos cfg], st)
            else
              let st1 = st\<lparr>openSet := splice1 minIndex (openSet st),
                           closedSet := closedSet st @ [current]\<rparr>
              in search cfg n (foldl (visitNeighbor current cfg) st1 (getNeighbors cfg current)))"

definition plan :: "PathPlanningConfig \<Rightarrow> AStarState \<Rightarrow> Vector3 list \<times> AStarState" where
  "plan cfg st =
     (if \<not> isPointClear cfg (startPos cfg) \<or> \<not> isPointClear cfg (endPos cfg)
      then ([startPos cfg, endPos cfg], st)
      else
        let startNode = PathNode (startPos cfg) 0 (distance (startPos cfg) (endPos cfg)) None;
            st0 = st\<lparr>openSet := openSet st @ [startNode],
                     nodeMap := (nodeMap st)(getNodeKey (startPos cfg) \<mapsto> startNode)\<rparr>
        in search cfg (maxIterations cfg) st0)"

subsection \<open>The tree planner \<^verbatim>\<open>RRTPlanner\<close>\<close>

text \<open>
  \<^verbatim>\<open>reconstructPath\<close> of the tree planner skips a node by \<^verbatim>\<open>node === current\<close>, an
  identity of objects, so a tree node is a pair of an object identity and its
  coordinates. The start object is 0 and the goal object is 1 (two objects, as
  \<^verbatim>\<open>planPath\<close> and the tests build them); iteration \<open>it\<close> allocates \<open>2 + 2 * it\<close> for the
  object of \<^verbatim>\<open>randomPoint\<close> and \<open>3 + 2 * it\<close> for the object of \<^verbatim>\<open>step\<close>.
  \<^verbatim>\<open>Math.random\<close> is the stream \<open>rnd\<close>, read at a running index.
\<close>

type_synonym NodeRef = "nat \<times> Vector3"

definition randomPoint :: "(nat \<Rightarrow> real) \<Rightarrow> nat \<Rightarrow> Vector3" where
  "randomPoint rnd k =
     \<lparr>vx = rnd k * 200 - 100, vy = rnd (k + 1) * 50 + 5, vz = rnd (k + 2) * 200 - 100\<rparr>"

text \<open>\<^verbatim>\<open>nearestNode\<close>; \<^verbatim>\<open>this.nodes\<close> always starts with the start point, so \<open>hd\<close> is defined.\<close>

definition nearestNode :: "NodeRef list \<Rightarrow> Vector3 \<Rightarrow> NodeRef" where
  "nearestNode nodes point =
     fst (foldl (\<lambda>(nearest, minDist) node.
                   let dist = distance point (snd node)
                   in if dist < minDist then (node, dist) else (nearest, minDist))
                (hd nodes, distance point (snd (hd nodes))) nodes)"

text \<open>
  \<^verbatim>\<open>step\<close>: the target object itself when it is closer than \<open>stepSize\<close>, else a new
  point at \<open>stepSize\<close> along the segment. \<open>None\<close> is the point with NaN coordinates
  that the source builds when \<^verbatim>\<open>dist\<close> is 0 and \<open>stepSize \<le> 0\<close>: \<^verbatim>\<open>ratio\<close> is then not
  finite and both points coincide, so each coordinate is \<^verbatim>\<open>a + 0 * ratio\<close>, a NaN.
\<close>

definition step :: "nat \<Rightarrow> NodeRef \<Rightarrow> NodeRef \<Rightarrow> real \<Rightarrow> NodeRef option" where
  "step fresh a b stepSize =
     (let dist = distance (snd a) (snd b)
      in if dist < stepSize then Some b
         else case jsdiv stepSize dist of
                None \<Rightarrow> None
              | Some ratio \<Rightarrow> Some (fresh, interpolate (snd a) (snd b) ratio))"

text \<open>
  The search loop, by the iterations that remain; \<open>it\<close> is the iteration number and
  \<open>k\<close> the index of the next random number. The result is the node sequence and, when
  the loop returned from inside, the point that reached the goal.

  A NaN point passes \<^verbatim>\<open>isPointClear\<close> and \<^verbatim>\<open>isPathClear\<close> (no comparison with a NaN
  holds, and the sampling loop of \<^verbatim>\<open>isPathClear\<close> has no iteration) and is pushed by the
  source. It is inert from then on: its distance to anything is NaN, so it is never the
  nearest node, never the closest node, never a predecessor, and it fails the goal test;
  the model leaves it out of the sequence.
\<close>

fun rrtLoop :: "PathPlanningConfig \<Rightarrow> (nat \<Rightarrow> real) \<Rightarrow> nat \<Rightarrow> nat \<Rightarrow> nat \<Rightarrow> NodeRef list
                \<Rightarrow> NodeRef list \<times> NodeRef option" where
  "rrtLoop cfg rnd 0 it k nodes = (nodes, None)"
| "rrtLoop cfg rnd (Suc n) it k nodes =
     (let goalBias = rnd k < 0.1;
          randomPt = (if goalBias then (1, endPos cfg) else (2 + 2 * it, randomPoint rnd (k + 1)));
          k1 = (if goalBias then k + 1 else k + 4);
          nearest = nearestNode nodes (snd randomPt)
      in case step (3 + 2 * it) nearest randomPt (gridSize cfg * 2) of
           None \<Rightarrow> rrtLoop cfg rnd n (Suc it) k1 nodes
         | Some newPoint \<Rightarrow>
             if isPointClear cfg (snd newPoint) \<and> isPathClear cfg (snd nearest) (snd newPoint)
             then
               if distance (snd newPoint) (endPos cfg) < gridSize cfg * 3
                  \<and> isPathClear cfg (snd newPoint) (endPos cfg)
               then (nodes @ [newPoint], Some newPoint)
               else rrtLoop cfg rnd n (Suc it) k1 (nodes @ [newPoint])
             else rrtLoop cfg rnd n (Suc it) k1 nodes)"

definition closestToGoal :: "PathPlanningConfig \<Rightarrow> NodeRef list \<Rightarrow> NodeRef" where
  "closestToGoal cfg nodes =
     fst (foldl (\<lambda>(closest, minDist) node.
                   let dist = distance (snd node) (endPos cfg)
                   in if dist < minDist then (node, dist) else (closest, minDist))
                (hd nodes, distance (snd (hd nodes)) (endPos cfg)) nodes)"

text \<open>
  The inner loop of \<^verbatim>\<open>reconstructPath\<close>: the nearest other node with a clear segment to
  \<open>current\<close>. \<open>None\<close> is \<^verbatim>\<open>minDist === Infinity\<close>, under which every finite distance lies.
\<close>

definition predecessorStep :: "PathPlanningConfig \<Rightarrow> NodeRef \<Rightarrow> (real \<times> NodeRef) option \<Rightarrow> NodeRef
                               \<Rightarrow> (real \<times> NodeRef) option" where
  "predecessorStep cfg current best node =
     (if fst node = fst current then best
      else
        let dist = distance (snd node) (snd current)
        in if (case best of None \<Rightarrow> True | Some (minDist, nearest) \<Rightarrow> dist < minDist)
              \<and> isPathClear cfg (snd node) (snd current)
           then Some (dist, node) else best)"

definition findPredecessor :: "PathPlanningConfig \<Rightarrow> NodeRef list \<Rightarrow> NodeRef \<Rightarrow> NodeRef option" where
  "findPredecessor cfg nodes current =
     map_option snd (foldl (predecessorStep cfg current) None nodes)"

text \<open>
  The outer \<^verbatim>\<open>while (current)\<close> loop: \<open>current\<close> is an object, so the test always
  holds and the loop ends only at the \<^verbatim>\<open>break\<close>. Nothing bounds it, so it is a partial
  function: \<open>None\<close> means that the loop does not return.
\<close>

partial_function (option) rrtWalk :: "PathPlanningConfig \<Rightarrow> NodeRef list \<Rightarrow> NodeRef \<Rightarrow> Vector3 list
                                       \<Rightarrow> Vector3 list option" where
  "rrtWalk cfg nodes current path =
     (case findPredecessor cfg nodes current of
        None \<Rightarrow> Some (snd current # path)
      | Some nearest \<Rightarrow> rrtWalk cfg nodes nearest (snd current # path))"

definition rrtReconstructPath :: "PathPlanningConfig \<Rightarrow> NodeRef list \<Rightarrow> NodeRef \<Rightarrow> Vector3 list option" where
  "rrtReconstructPath cfg nodes endPoint =
     map_option (\<lambda>path. path @ [endPos cfg]) (rrtWalk cfg nodes endPoint [])"

definition rrtPlan :: "PathPlanningConfig \<Rightarrow> (nat \<Rightarrow> real) \<Rightarrow> Vector3 list option" where
  "rrtPlan cfg rnd =
     (case rrtLoop cfg rnd (maxIterations cfg) 0 0 [(0, startPos cfg)] of
        (nodes, Some newPoint) \<Rightarrow> rrtReconstructPath cfg nodes newPoint
      | (nodes, None) \<Rightarrow> rrtReconstructPath cfg nodes (closestToGoal cfg nodes))"

subsection \<open>\<^verbatim>\<open>TrajectorySmoothing.smoothPath\<close>\<close>

definition catmullRom :: "real \<Rightarrow> real \<Rightarrow> real \<Rightarrow> real \<Rightarrow> real \<Rightarrow> real" where
  "catmullRom a0 a1 a2 a3 s =
     (let s2 = s * s; s3 = s2 * s
      in 0.5 * ((2 * a1) + (- a0 + a2) * s + (2 * a0 - 5 * a1 + 4 * a2 - a3) * s2
                + (- a0 + 3 * a1 - 3 * a2 + a3) * s3))"

text \<open>
  The points of segment \<open>i\<close>: \<^verbatim>\<open>t = 0, 1, ...\<close> while \<^verbatim>\<open>t < pointsPerSegment\<close>, that is
  \<open>\<lceil>pointsPerSegment\<rceil>\<close> values (none when it is not positive). Inside the loop
  \<open>0 \<le> t < pointsPerSegment\<close>, so the divisor of \<^verbatim>\<open>t / pointsPerSegment\<close> is not 0.
\<close>

definition segmentPoints :: "Vector3 list \<Rightarrow> real \<Rightarrow> nat \<Rightarrow> Vector3 list" where
  "segmentPoints path pointsPerSegment i =
     (let p0 = path ! nat (max 0 (int i - 1));
          p1 = path ! i;
          p2 = path ! (i + 1);
          p3 = path ! min (length path - 1) (i + 2)
      in map (\<lambda>t. let s = real t / pointsPerSegment
                  in \<lparr>vx = catmullRom (vx p0) (vx p1) (vx p2) (vx p3) s,
                      vy = catmullRom (vy p0) (vy p1) (vy p2) (vy p3) s,
                      vz = catmullRom (vz p0) (vz p1) (vz p2) (vz p3) s\<rparr>)
             [0..<nat \<lceil>pointsPerSegment\<rceil>])"

definition smoothPath :: "Vector3 list \<Rightarrow> real \<Rightarrow> Vector3 list" where
  "smoothPath path pointsPerSegment =
     (if length path < 2 then path
      else concat (map (segmentPoints path pointsPerSegment) [0..<length path - 1])
           @ [path ! (length path - 1)])"

subsection \<open>\<^verbatim>\<open>DroneSimulatorV2.generateTrajectoryFromPath\<close>\<close>

text \<open>
  A sample position is three numbers or, when the interpolation divided by a segment of
  length 0, three NaN: the segment's two points then coincide, so each coordinate is
  \<^verbatim>\<open>a + 0 * segmentProgress\<close> with \<^verbatim>\<open>segmentProgress\<close> a NaN or an infinity.
\<close>

datatype Position = Position real real real | NaNPosition

record TrajectoryPoint =
  sample_position :: Position
  timestamp :: real
  velocity :: real

datatype failure = TypeError | NoReturn

fun totalLength :: "Vector3 list \<Rightarrow> real" where
  "totalLength (a # b # rest) = distance b a + totalLength (b # rest)"
| "totalLength path = 0"

definition positionOf :: "Vector3 \<Rightarrow> Position" where
  "positionOf p = Position (vx p) (vy p) (vz p)"

text \<open>
  The inner loop over the segments, with the length \<open>currentDistance\<close> walked so far;
  \<open>pos\<close> is what \<^verbatim>\<open>position\<close> holds if the loop ends without its \<^verbatim>\<open>break\<close>.
\<close>

fun locate :: "Vector3 list \<Rightarrow> real \<Rightarrow> real \<Rightarrow> Position \<Rightarrow> Position" where
  "locate (a # b # rest) currentDistance distanceAlongPath pos =
     (let segmentDistance = distance b a
      in if currentDistance + segmentDistance \<ge> distanceAlongPath
         then (case jsdiv (distanceAlongPath - currentDistance) segmentDistance of
                 None \<Rightarrow> NaNPosition
               | Some segmentProgress \<Rightarrow> positionOf (interpolate a b segmentProgress))
         else locate (b # rest) (currentDistance + segmentDistance) distanceAlongPath pos)"
| "locate path currentDistance distanceAlongPath pos = pos"

definition distanceAlong :: "real \<Rightarrow> int \<Rightarrow> nat \<Rightarrow> real" where
  "distanceAlong totalDistance pointsCount i =
     (let progress = real i / of_int pointsCount in totalDistance * progress)"

definition trajectorySample :: "Vector3 list \<Rightarrow> real \<Rightarrow> real \<Rightarrow> real \<Rightarrow> int \<Rightarrow> nat \<Rightarrow> TrajectoryPoint" where
  "trajectorySample path speed totalDistance totalTime pointsCount i =
     \<lparr>sample_position =
        locate path 0 (distanceAlong totalDistance pointsCount i) (positionOf (hd path)),
      timestamp = (real i / of_int pointsCount) * totalTime,
      velocity = speed\<rparr>"

text \<open>
  \<^verbatim>\<open>pointsCount\<close> is at least 100, so the sample loop runs and, on the empty path,
  reads \<^verbatim>\<open>position.x\<close> of \<^verbatim>\<open>undefined\<close>: a TypeError. With \<open>speed = 0\<close> the total time
  is not finite: NaN for a path of length 0 (\<^verbatim>\<open>pointsCount\<close> is NaN, no sample), an
  infinity otherwise (the loop has no end).
\<close>

definition generateTrajectoryFromPath :: "Vector3 list \<Rightarrow> real \<Rightarrow> failure + TrajectoryPoint list" where
  "generateTrajectoryFromPath path speed =
     (let totalDistance = totalLength path
      in case jsdiv totalDistance speed of
           None \<Rightarrow> if totalDistance = 0 then Inr [] else Inl NoReturn
         | Some totalTime \<Rightarrow>
             let pointsCount = max 100 \<lfloor>totalTime * 10\<rfloor>
             in if path = [] then Inl TypeError
                else Inr (map (trajectorySample path speed totalDistance totalTime pointsCount)
                            [0..<nat pointsCount]))"

subsection \<open>Concrete inputs and auxiliary notions\<close>

text \<open>The start point lies at the centre of an obstacle.\<close>

definition blockedStartConfig :: PathPlanningConfig where
  "blockedStartConfig =
     \<lparr>startPos = \<lparr>vx = 0, vy = 0, vz = 0\<rparr>, endPos = \<lparr>vx = 20, vy = 0, vz = 0\<rparr>,
      obstacles = [\<lparr>position = \<lparr>vx = 0, vy = 0, vz = 0\<rparr>, radius = 3\<rparr>],
      gridSize = 2, droneRadius = 1, maxIterations = 100\<rparr>"

text \<open>A path of two points, for the smoother and the resampler.\<close>

definition twoPointPath :: "Vector3 list" where
  "twoPointPath = [\<lparr>vx = 0, vy = 0, vz = 0\<rparr>, \<lparr>vx = 5, vy = 5, vz = 5\<rparr>]"

text \<open>Resampler inputs: a segment of length 50, the same path with its first point doubled, and a path whose two points coincide.\<close>

definition straightPath :: "Vector3 list" where
  "straightPath = [\<lparr>vx = 0, vy = 0, vz = 0\<rparr>, \<lparr>vx = 30, vy = 0, vz = 40\<rparr>]"

definition stalledPath :: "Vector3 list" where
  "stalledPath = [\<lparr>vx = 0, vy = 0, vz = 0\<rparr>, \<lparr>vx = 0, vy = 0, vz = 0\<rparr>, \<lparr>vx = 30, vy = 0, vz = 40\<rparr>]"

definition stationaryPath :: "Vector3 list" where
  "stationaryPath = [\<lparr>vx = 1, vy = 2, vz = 3\<rparr>, \<lparr>vx = 1, vy = 2, vz = 3\<rparr>]"

text \<open>The value of \<^verbatim>\<open>pointsCount\<close> for a path and a speed.\<close>

definition pointsCountOf :: "Vector3 list \<Rightarrow> real \<Rightarrow> int" where
  "pointsCountOf path speed = max 100 \<lfloor>totalLength path / speed * 10\<rfloor>"

text \<open>
  The key as the specification words it: each coordinate rounded to the nearest
  multiple of \<open>gridStep\<close>. It is compared with \<open>getNodeKey\<close> of the source.
\<close>

definition specNodeKey :: "real \<Rightarrow> Vector3 \<Rightarrow> real \<times> real \<times> real" where
  "specNodeKey gridStep pos =
     (of_int (mathRound (vx pos / gridStep)) * gridStep,
      of_int (mathRound (vy pos / gridStep)) * gridStep,
      of_int (mathRound (vz pos / gridStep)) * gridStep)"

text \<open>A planner state with one open node at key \<open>(2, 0, 0)\<close>, reached at cost 10.\<close>

definition originNode :: PathNode where
  "originNode = PathNode \<lparr>vx = 0, vy = 0, vz = 0\<rparr> 0 20 None"

definition costlyNode :: PathNode where
  "costlyNode = PathNode \<lparr>vx = 2, vy = 0, vz = 0\<rparr> 10 18 None"

definition costlyState :: AStarState where
  "costlyState = \<lparr>openSet = [costlyNode], closedSet = [originNode],
                   nodeMap = [(2, 0, 0) \<mapsto> costlyNode]\<rparr>"

text \<open>
  Obstacle-free scenarios with a budget of one iteration. In \<open>lowStartConfig\<close> the start
  lies below the vertical band, so it has the nine neighbours at height 0 only;
  \<open>lowStartNode\<close> is its start node and \<open>lowOpen\<close> the open set that one expansion
  leaves behind.
\<close>

definition exhaustedConfig :: PathPlanningConfig where
  "exhaustedConfig =
     \<lparr>startPos = \<lparr>vx = 0, vy = 0, vz = 0\<rparr>, endPos = \<lparr>vx = 10, vy = 0, vz = 0\<rparr>,
      obstacles = [], gridSize = 2, droneRadius = 1, maxIterations = 1\<rparr>"

definition lowStartConfig :: PathPlanningConfig where
  "lowStartConfig =
     \<lparr>startPos = \<lparr>vx = 0, vy = -2, vz = 0\<rparr>, endPos = \<lparr>vx = 0, vy = 3, vz = 0\<rparr>,
      obstacles = [], gridSize = 2, droneRadius = 1, maxIterations = 1\<rparr>"

definition lowStartNode :: PathNode where
  "lowStartNode = PathNode \<lparr>vx = 0, vy = -2, vz = 0\<rparr> 0 5 None"

definition lowOpen :: "PathNode list" where
  "lowOpen =
    [PathNode \<lparr>vx = -2, vy = 0, vz = -2\<rparr> (sqrt 12) (sqrt 17) (Some lowStartNode),
     PathNode \<lparr>vx = -2, vy = 0, vz = 0\<rparr> (sqrt 8) (sqrt 13) (Some lowStartNode),
     PathNode \<lparr>vx = -2, vy = 0, vz = 2\<rparr> (sqrt 12) (sqrt 17) (Some lowStartNode),
     PathNode \<lparr>vx = 0, vy = 0, vz = -2\<rparr> (sqrt 8) (sqrt 13) (Some lowStartNode),
     PathNode \<lparr>vx = 0, vy = 0, vz = 0\<rparr> 2 3 (Some lowStartNode),
     PathNode \<lparr>vx = 0, vy = 0, vz = 2\<rparr> (sqrt 8) (sqrt 13) (Some lowStartNode),
     PathNode \<lparr>vx = 2, vy = 0, vz = -2\<rparr> (sqrt 12) (sqrt 17) (Some lowStartNode),
     PathNode \<lparr>vx = 2, vy = 0, vz = 0\<rparr> (sqrt 8) (sqrt 13) (Some lowStartNode),
     PathNode \<lparr>vx = 2, vy = 0, vz = 2\<rparr> (sqrt 12) (sqrt 17) (Some lowStartNode)]"

text \<open>
  The scenario of the repository's test of the tree planner (\<^verbatim>\<open>should find a path from
  start to end\<close>): no obstacle, 200 iterations.
\<close>

definition rrtTestConfig :: PathPlanningConfig where
  "rrtTestConfig =
     \<lparr>startPos = \<lparr>vx = 0, vy = 0, vz = 0\<rparr>, endPos = \<lparr>vx = 10, vy = 0, vz = 10\<rparr>,
      obstacles = [], gridSize = 2, droneRadius = 1, maxIterations = 200\<rparr>"

text \<open>
  For the clearance of paths: \<open>chainClear\<close> says that a node of the grid planner and
  all its ancestors lie at clear positions. \<open>guardedConfig\<close> has one obstacle, clear of
  start and goal, in front of the start; one iteration of the grid planner ends in the
  detour over the raised midpoint \<open>(15, 20, 0)\<close>.
\<close>

fun chainClear :: "PathPlanningConfig \<Rightarrow> PathNode \<Rightarrow> bool" where
  "chainClear cfg (PathNode pos gc hc None) = isPointClear cfg pos"
| "chainClear cfg (PathNode pos gc hc (Some p)) = (isPointClear cfg pos \<and> chainClear cfg p)"



text \<open>
  For the expansion order of the grid planner: \<open>crowdedConfig\<close> has no obstacle and a
  grid step of a quarter, so that several neighbours of the start share one key;
  \<open>crowdedStart\<close> is the start node, and \<open>crowdedA\<close>, \<open>crowdedB\<close>, \<open>crowdedC\<close> are the
  three neighbours of key \<open>(0, 1, 0)\<close> that the first expansion appends to the open set.
  \<open>crowdedState\<close> is the state of the planner after two expansions.
\<close>

definition crowdedConfig :: PathPlanningConfig where
  "crowdedConfig =
     \<lparr>startPos = \<lparr>vx = 0, vy = 1/4, vz = 0\<rparr>, endPos = \<lparr>vx = 0, vy = 41/4, vz = 0\<rparr>,
      obstacles = [], gridSize = 1/4, droneRadius = 1, maxIterations = 3\<rparr>"

definition crowdedStart :: PathNode where
  "crowdedStart = PathNode \<lparr>vx = 0, vy = 1/4, vz = 0\<rparr> 0 10 None"

definition crowdedA :: PathNode where
  "crowdedA = PathNode \<lparr>vx = -1/4, vy = 1/2, vz = -1/4\<rparr> (sqrt (3/16)) (sqrt (1523/16)) (Some crowdedStart)"

definition crowdedB :: PathNode where
  "crowdedB = PathNode \<lparr>vx = -1/4, vy = 1/2, vz = 0\<rparr> (sqrt (1/8)) (sqrt (761/8)) (Some crowdedStart)"

definition crowdedC :: PathNode where
  "crowdedC = PathNode \<lparr>vx = 0, vy = 1/2, vz = 0\<rparr> (sqrt (1/16)) (sqrt (1521/16)) (Some crowdedStart)"

definition crowdedState :: AStarState where
  "crowdedState =
     \<lparr>openSet = [crowdedA, crowdedB], closedSet = [crowdedStart, crowdedC],
      nodeMap = [(0, 0, 0) \<mapsto> crowdedStart, (0, 1, 0) \<mapsto> crowdedC]\<rparr>"

section \<open>Properties\<close>

subsection \<open>Blocked start or goal\<close>

text \<open>
  Claim C3. When the start point or the goal point is closer to the centre of some
  obstacle than its radius plus the drone radius plus the margin of 2, the grid
  planner's \<^verbatim>\<open>plan\<close> returns exactly the two points start and goal, and it does so
  before any step of the search: the open set, the closed set and the node map are left
  as they were.
\<close>

theorem plan_blocked_endpoint:
  assumes "obstacle \<in> set (obstacles cfg)"
    and "distance (startPos cfg) (position obstacle) < radius obstacle + droneRadius cfg + 2
         \<or> distance (endPos cfg) (position obstacle) < radius obstacle + droneRadius cfg + 2"
  shows "plan cfg st = ([startPos cfg, endPos cfg], st)"
proof -
  from assms have "\<not> isPointClear cfg (startPos cfg) \<or> \<not> isPointClear cfg (endPos cfg)"
    by (auto simp add: isPointClear_def list_all_iff)
  then show ?thesis by (simp add: plan_def)
qed

theorem plan_blocked_endpoint_witness:
  "\<lparr>position = \<lparr>vx = 0, vy = 0, vz = 0\<rparr>, radius = 3\<rparr> \<in> set (obstacles blockedStartConfig)
   \<and> distance (startPos blockedStartConfig) \<lparr>vx = 0, vy = 0, vz = 0\<rparr> < 3 + droneRadius blockedStartConfig + 2
   \<and> plan blockedStartConfig newAStarPlanner
       = ([\<lparr>vx = 0, vy = 0, vz = 0\<rparr>, \<lparr>vx = 20, vy = 0, vz = 0\<rparr>], newAStarPlanner)"
proof -
  have inside: "\<lparr>position = \<lparr>vx = 0, vy = 0, vz = 0\<rparr>, radius = 3\<rparr> \<in> set (obstacles blockedStartConfig)"
    by (simp add: blockedStartConfig_def)
  have near: "distance (startPos blockedStartConfig) \<lparr>vx = 0, vy = 0, vz = 0\<rparr>
              < 3 + droneRadius blockedStartConfig + 2"
    by (simp add: blockedStartConfig_def distance_def)
  from plan_blocked_endpoint [OF inside, of newAStarPlanner] near
  have "plan blockedStartConfig newAStarPlanner
          = ([startPos blockedStartConfig, endPos blockedStartConfig], newAStarPlanner)"
    by simp
  with inside near show ?thesis by (simp add: blockedStartConfig_def)
qed

subsection \<open>The smoother\<close>

lemma length_segmentPoints: "length (segmentPoints path n i) = nat \<lceil>n\<rceil>"
  by (simp add: segmentPoints_def Let_def)

lemma length_concat_const:
  "(\<And>x. x \<in> set xs \<Longrightarrow> length (f x) = c) \<Longrightarrow> length (concat (map f xs)) = length xs * c"
  by (induction xs) auto

lemma length_smoothPath:
  "2 \<le> length path \<Longrightarrow> length (smoothPath path n) = (length path - 1) * nat \<lceil>n\<rceil> + 1"
  by (simp add: smoothPath_def length_concat_const length_segmentPoints)

lemma catmullRom_0: "catmullRom a0 a1 a2 a3 0 = a1"
  by (simp add: catmullRom_def)

lemma hd_segmentPoints:
  "0 < n \<Longrightarrow> hd (segmentPoints path n i) = path ! i"
proof -
  assume n: "0 < n"
  then have "0 < nat \<lceil>n\<rceil>" by simp
  then have "[0..<nat \<lceil>n\<rceil>] = 0 # [1..<nat \<lceil>n\<rceil>]"
    by (simp add: upt_conv_Cons)
  then show ?thesis
    by (simp add: segmentPoints_def Let_def catmullRom_0)
qed

lemma segmentPoints_nonempty: "0 < n \<Longrightarrow> segmentPoints path n i \<noteq> []"
  by (simp add: segmentPoints_def Let_def)

lemma hd_smoothPath:
  assumes "2 \<le> length path" "0 < n"
  shows "hd (smoothPath path n) = hd path"
proof -
  from assms(1) have "[0..<length path - 1] = 0 # [1..<length path - 1]"
    by (simp add: upt_conv_Cons)
  with assms have "hd (smoothPath path n) = hd (segmentPoints path n 0)"
    by (simp add: smoothPath_def segmentPoints_nonempty)
  also have "\<dots> = path ! 0"
    using assms(2) by (rule hd_segmentPoints)
  also have "\<dots> = hd path"
    using assms(1) by (cases path) simp_all
  finally show ?thesis .
qed

lemma last_smoothPath:
  assumes "2 \<le> length path"
  shows "last (smoothPath path n) = last path"
proof -
  from assms have "path \<noteq> []" by auto
  then have "path ! (length path - 1) = last path"
    by (simp add: last_conv_nth)
  with assms show ?thesis by (simp add: smoothPath_def)
qed

lemma segmentPoints_empty: "n \<le> 0 \<Longrightarrow> segmentPoints path n i = []"
  by (simp add: segmentPoints_def Let_def)

lemma concat_all_empty: "(\<And>x. x \<in> set xs \<Longrightarrow> f x = []) \<Longrightarrow> concat (map f xs) = []"
  by (induction xs) auto

lemma smoothPath_nonpositive:
  assumes "2 \<le> length path" "n \<le> 0"
  shows "smoothPath path n = [last path]"
proof -
  from assms(1) have "path \<noteq> []" by auto
  then have "path ! (length path - 1) = last path"
    by (simp add: last_conv_nth)
  with assms show ?thesis
    by (simp add: smoothPath_def concat_all_empty segmentPoints_empty)
qed

text \<open>
  Claim C6, as the source has it. A path of fewer than 2 points is returned unchanged.
  For a path of at least 2 points: the last output point is the last input point; the
  first output point is the first input point when \<^verbatim>\<open>pointsPerSegment\<close> is positive,
  and when it is not positive the output is the last input point alone; the output has
  \<open>(length path - 1) * max(0, \<lceil>pointsPerSegment\<rceil>) + 1\<close> points, which is more than the
  input when \<^verbatim>\<open>pointsPerSegment\<close> exceeds 1 and not more when it does not.
\<close>

theorem smoothPath_endpoints_and_length:
  "(length path < 2 \<longrightarrow> smoothPath path n = path)
   \<and> (2 \<le> length path \<longrightarrow>
        last (smoothPath path n) = last path
        \<and> (0 < n \<longrightarrow> hd (smoothPath path n) = hd path)
        \<and> (n \<le> 0 \<longrightarrow> smoothPath path n = [last path])
        \<and> int (length (smoothPath path n)) = (int (length path) - 1) * max 0 \<lceil>n\<rceil> + 1
        \<and> (1 < n \<longrightarrow> length path < length (smoothPath path n))
        \<and> (n \<le> 1 \<longrightarrow> length (smoothPath path n) \<le> length path))"
proof (intro conjI impI)
  show "smoothPath path n = path" if "length path < 2"
    using that by (simp add: smoothPath_def)
  show "last (smoothPath path n) = last path" if "2 \<le> length path"
    using that by (rule last_smoothPath)
  show "hd (smoothPath path n) = hd path" if "2 \<le> length path" "0 < n"
    using that by (rule hd_smoothPath)
  show "smoothPath path n = [last path]" if "2 \<le> length path" "n \<le> 0"
    using that by (rule smoothPath_nonpositive)
  show "int (length (smoothPath path n)) = (int (length path) - 1) * max 0 \<lceil>n\<rceil> + 1"
    if "2 \<le> length path"
  proof -
    have "int (nat \<lceil>n\<rceil>) = max 0 \<lceil>n\<rceil>" by simp
    moreover from that have "int (length path - 1) = int (length path) - 1" by simp
    ultimately show ?thesis
      using length_smoothPath [OF that, of n] by simp
  qed
  show "length path < length (smoothPath path n)" if "2 \<le> length path" "1 < n"
  proof -
    from that(2) have "2 \<le> nat \<lceil>n\<rceil>" by linarith
    then have "(length path - 1) * 2 \<le> (length path - 1) * nat \<lceil>n\<rceil>"
      by (rule mult_le_mono2)
    moreover from that(1) have "length path \<le> (length path - 1) * 2"
      by simp
    ultimately have "length path < (length path - 1) * nat \<lceil>n\<rceil> + 1"
      by linarith
    with that(1) show ?thesis by (simp only: length_smoothPath)
  qed
  show "length (smoothPath path n) \<le> length path" if "2 \<le> length path" "n \<le> 1"
  proof -
    from that(2) have "nat \<lceil>n\<rceil> \<le> 1" by linarith
    then have "(length path - 1) * nat \<lceil>n\<rceil> \<le> (length path - 1) * 1"
      by (rule mult_le_mono2)
    with that(1) have "(length path - 1) * nat \<lceil>n\<rceil> + 1 \<le> length path"
      by linarith
    with that(1) show ?thesis by (simp only: length_smoothPath)
  qed
qed

theorem smoothPath_endpoints_and_length_witness:
  "2 \<le> length twoPointPath \<and> (0::real) < 2 \<and> (1::real) < 2
   \<and> last (smoothPath twoPointPath 2) = \<lparr>vx = 5, vy = 5, vz = 5\<rparr>
   \<and> hd (smoothPath twoPointPath 2) = \<lparr>vx = 0, vy = 0, vz = 0\<rparr>
   \<and> length (smoothPath twoPointPath 2) = 3
   \<and> length twoPointPath < length (smoothPath twoPointPath 2)
   \<and> (-3::real) \<le> 0
   \<and> smoothPath twoPointPath (-3) = [\<lparr>vx = 5, vy = 5, vz = 5\<rparr>]
   \<and> length [\<lparr>vx = 1, vy = 2, vz = 3\<rparr>] < 2
   \<and> smoothPath [\<lparr>vx = 1, vy = 2, vz = 3\<rparr>] 2 = [\<lparr>vx = 1, vy = 2, vz = 3\<rparr>]"
  using smoothPath_endpoints_and_length [of twoPointPath 2]
        smoothPath_endpoints_and_length [of twoPointPath "-3"]
        smoothPath_endpoints_and_length [of "[\<lparr>vx = 1, vy = 2, vz = 3\<rparr>]" 2]
  by (simp add: twoPointPath_def)

text \<open>
  With one sample per segment the output of a two-point path has two points again: it
  is not longer than the input. With no sample per segment the output is the last point
  alone: its first point is not the first point of the input.
\<close>

theorem smoothPath_few_samples_counterexample:
  "2 \<le> length twoPointPath
   \<and> \<not> length twoPointPath < length (smoothPath twoPointPath 1)
   \<and> hd (smoothPath twoPointPath 0) \<noteq> hd twoPointPath
   \<and> \<not> length twoPointPath < length (smoothPath twoPointPath 0)"
  by (simp add: twoPointPath_def smoothPath_def segmentPoints_def)

subsection \<open>The resampler\<close>

lemma distance_nonneg: "0 \<le> distance a b"
  by (simp add: distance_def Let_def)

lemma totalLength_nonneg: "0 \<le> totalLength path"
  by (induction path rule: totalLength.induct) (simp_all add: distance_nonneg)

lemma totalLength_pos_nonempty: "0 < totalLength path \<Longrightarrow> path \<noteq> []"
  by auto

lemma generate_returns:
  "speed \<noteq> 0 \<Longrightarrow> path \<noteq> [] \<Longrightarrow>
   generateTrajectoryFromPath path speed =
     Inr (map (trajectorySample path speed (totalLength path) (totalLength path / speed)
                 (pointsCountOf path speed))
            [0..<nat (pointsCountOf path speed)])"
  by (simp add: generateTrajectoryFromPath_def jsdiv_def Let_def pointsCountOf_def)

lemma pointsCountOf_ge: "100 \<le> pointsCountOf path speed"
  by (simp add: pointsCountOf_def)

lemma timestamps_sorted:
  assumes "0 < speed" "generateTrajectoryFromPath path speed = Inr traj"
  shows "sorted (map timestamp traj)"
proof (cases "path = []")
  case True
  with assms show ?thesis
    by (simp add: generateTrajectoryFromPath_def jsdiv_def Let_def)
next
  case False
  let ?N = "pointsCountOf path speed"
  let ?T = "totalLength path / speed"
  from assms False have traj: "traj = map (trajectorySample path speed (totalLength path) ?T ?N) [0..<nat ?N]"
    by (simp add: generate_returns)
  have T: "0 \<le> ?T" using assms(1) totalLength_nonneg [of path] by simp
  have N: "0 < ?N" using pointsCountOf_ge [of path speed] by linarith
  have ts: "map timestamp traj = map (\<lambda>i. real i / of_int ?N * ?T) [0..<nat ?N]"
    by (simp add: traj trajectorySample_def)
  have "sorted (map (\<lambda>i. real i / of_int ?N * ?T) [0..<nat ?N])"
  proof (rule sorted_map_mono [OF sorted_upt])
    show "mono_on (set [0..<nat ?N]) (\<lambda>i. real i / of_int ?N * ?T)"
    proof (rule mono_onI)
      fix r s :: nat
      assume "r \<le> s"
      then have "real r / of_int ?N \<le> real s / of_int ?N"
        using N by (intro divide_right_mono) simp_all
      then show "real r / of_int ?N * ?T \<le> real s / of_int ?N * ?T"
        using T by (rule mult_right_mono)
    qed
  qed
  then show ?thesis by (simp only: ts)
qed

lemma count_antimono:
  assumes "0 < v1" "v1 < v2"
  shows "pointsCountOf path v2 \<le> pointsCountOf path v1"
proof -
  have "totalLength path / v2 \<le> totalLength path / v1"
    using assms totalLength_nonneg [of path] by (simp add: frac_le)
  then have "totalLength path / v2 * 10 \<le> totalLength path / v1 * 10"
    by (rule mult_right_mono) simp
  then have "\<lfloor>totalLength path / v2 * 10\<rfloor> \<le> \<lfloor>totalLength path / v1 * 10\<rfloor>"
    by (rule floor_mono)
  then show ?thesis by (simp add: pointsCountOf_def)
qed

lemma hd_trajectory:
  "0 < n \<Longrightarrow> hd (map f [0..<n]) = f 0"
  by (simp add: hd_map upt_conv_Cons)

lemma first_sample_at_start:
  assumes "0 < speed" "path = a # rest" "rest = [] \<or> 0 < distance (hd rest) a"
    and "generateTrajectoryFromPath path speed = Inr traj"
  shows "sample_position (hd traj) = positionOf a"
proof -
  have N: "0 < nat (pointsCountOf path speed)"
    using pointsCountOf_ge [of path speed] by linarith
  from assms(1,2,4) have "hd traj = trajectorySample path speed (totalLength path)
      (totalLength path / speed) (pointsCountOf path speed) 0"
    using generate_returns [of speed path] hd_trajectory [OF N] by auto
  moreover have "locate (a # rest) 0 0 (positionOf a) = positionOf a"
  proof (cases rest)
    case Nil
    then show ?thesis by simp
  next
    case (Cons b more)
    with assms(3) have "0 < distance b a" by simp
    then show ?thesis
      by (simp add: Cons jsdiv_def interpolate_def positionOf_def)
  qed
  ultimately show ?thesis
    by (simp add: trajectorySample_def distanceAlong_def assms(2))
qed

lemma locate_stationary:
  "locate stationaryPath 0 0 pos = NaNPosition"
  by (simp add: stationaryPath_def distance_def jsdiv_def)

text \<open>
  Claim C10. For a path of positive total length and a positive speed the call returns
  \<open>N = max(100, floor(totalTime * 10))\<close> samples; sample \<open>i\<close> has the timestamp
  \<open>(i / N) * totalTime\<close>, below \<open>totalTime\<close>, and its position is looked up at the
  arc length \<open>totalLength * (i / N)\<close>, below the full length of the path: no sample is
  taken at the end of the path.
\<close>

theorem trajectory_stops_short:
  assumes "0 < totalLength path" "0 < speed"
  shows "\<exists>traj. generateTrajectoryFromPath path speed = Inr traj
           \<and> int (length traj) = max 100 \<lfloor>totalLength path / speed * 10\<rfloor>
           \<and> (\<forall>i < length traj.
                 timestamp (traj ! i) = real i / real (length traj) * (totalLength path / speed)
                 \<and> timestamp (traj ! i) < totalLength path / speed
                 \<and> sample_position (traj ! i)
                     = locate path 0 (totalLength path * (real i / real (length traj)))
                         (positionOf (hd path))
                 \<and> totalLength path * (real i / real (length traj)) < totalLength path)"
proof -
  define N where "N = pointsCountOf path speed"
  define T where "T = totalLength path / speed"
  define traj where "traj = map (trajectorySample path speed (totalLength path) T N) [0..<nat N]"
  from assms have ne: "path \<noteq> []" by auto
  from assms ne have ret: "generateTrajectoryFromPath path speed = Inr traj"
    by (simp add: generate_returns traj_def T_def N_def)
  have N: "100 \<le> N" unfolding N_def by (rule pointsCountOf_ge)
  have len: "length traj = nat N" by (simp add: traj_def)
  have lenN: "real (length traj) = of_int N" using N by (simp add: len)
  have lenI: "int (length traj) = max 100 \<lfloor>totalLength path / speed * 10\<rfloor>"
    using N by (simp add: len) (simp add: N_def pointsCountOf_def)
  have T: "0 < T" using assms by (simp add: T_def)
  have props: "timestamp (traj ! i) = real i / real (length traj) * T
        \<and> timestamp (traj ! i) < T
        \<and> sample_position (traj ! i)
            = locate path 0 (totalLength path * (real i / real (length traj))) (positionOf (hd path))
        \<and> totalLength path * (real i / real (length traj)) < totalLength path"
    if i: "i < length traj" for i
  proof -
    from i have iN: "i < nat N" by (simp add: len)
    then have nth: "traj ! i = trajectorySample path speed (totalLength path) T N i"
      by (simp add: traj_def)
    from iN N have frac: "real i / of_int N < 1" by simp
    have "real i / of_int N * T < 1 * T"
      using frac T by (rule mult_strict_right_mono)
    moreover have "totalLength path * (real i / of_int N) < totalLength path * 1"
      using frac assms(1) by (rule mult_strict_left_mono)
    ultimately show ?thesis
      by (simp add: nth lenN trajectorySample_def distanceAlong_def Let_def)
  qed
  show ?thesis
    using ret lenI props unfolding T_def by blast
qed

theorem trajectory_stops_short_witness:
  "0 < totalLength straightPath \<and> (0::real) < 10
   \<and> (\<exists>traj. generateTrajectoryFromPath straightPath 10 = Inr traj
         \<and> length traj = 100
         \<and> timestamp (traj ! 99) = 99 / 20 \<and> timestamp (traj ! 99) < 5)"
proof -
  have L: "totalLength straightPath = 50"
    by (simp add: straightPath_def distance_def)
  from trajectory_stops_short [of straightPath 10]
  obtain traj where t: "generateTrajectoryFromPath straightPath 10 = Inr traj"
      "int (length traj) = 100"
      "\<forall>i < length traj. timestamp (traj ! i) = real i / real (length traj) * 5
          \<and> timestamp (traj ! i) < 5"
    by (auto simp add: L)
  from t(2) have len: "length traj = 100" by simp
  with t(3) have "timestamp (traj ! 99) = 99 / 20 \<and> timestamp (traj ! 99) < 5"
    by simp
  with t(1) len L show ?thesis by auto
qed

text \<open>
  Claim C7. The claim gives the first sample the position of the first path point. On
  the path \<open>stalledPath\<close>, whose first two points coincide, the first sample divides
  \<open>0\<close> by the segment length \<open>0\<close> and its position is three NaN, not the first point.
  (The other parts of the claim hold: \<open>timestamps_sorted\<close>, \<open>count_antimono\<close>, and
  \<open>first_sample_at_start\<close> when the first segment has positive length.)
\<close>

theorem first_sample_nan_on_stalled_path:
  "\<exists>traj. generateTrajectoryFromPath stalledPath 10 = Inr traj
      \<and> length traj = 100
      \<and> sample_position (hd traj) = NaNPosition
      \<and> sample_position (hd traj) \<noteq> positionOf (hd stalledPath)"
proof -
  have L: "totalLength stalledPath = 50"
    by (simp add: stalledPath_def distance_def)
  have N: "pointsCountOf stalledPath 10 = 100"
    by (simp add: pointsCountOf_def L)
  have ne: "stalledPath \<noteq> []" by (simp add: stalledPath_def)
  have ret: "generateTrajectoryFromPath stalledPath 10 =
      Inr (map (trajectorySample stalledPath 10 50 5 100) [0..<100])"
    using generate_returns [of 10 stalledPath] ne by (simp add: L N)
  have "sample_position (trajectorySample stalledPath 10 50 5 100 0) = NaNPosition"
    by (simp add: trajectorySample_def distanceAlong_def stalledPath_def distance_def jsdiv_def)
  then have "sample_position (hd (map (trajectorySample stalledPath 10 50 5 100) [0..<100])) = NaNPosition"
    by (simp add: hd_trajectory)
  with ret show ?thesis by (simp add: positionOf_def)
qed

text \<open>
  Claim C8. The claim has no division by zero in the core operations. The segment
  check of a zero-length segment divides \<open>0\<close> by \<open>steps = 0\<close> and answers clear for a
  point that is not clear, and the resampler, on a path whose two points coincide,
  divides by the segment length \<open>0\<close> and gives every sample a NaN position.
\<close>

theorem zero_length_segments_divide_by_zero:
  "\<not> isPointClear blockedStartConfig (startPos blockedStartConfig)
   \<and> jsdiv 0 (of_int \<lceil>distance (startPos blockedStartConfig) (startPos blockedStartConfig) / 2\<rceil>) = None
   \<and> isPathClear blockedStartConfig (startPos blockedStartConfig) (startPos blockedStartConfig)
   \<and> (\<exists>traj. generateTrajectoryFromPath stationaryPath 10 = Inr traj
         \<and> length traj = 100
         \<and> list_all (\<lambda>sample. sample_position sample = NaNPosition) traj)"
proof -
  have blocked: "\<not> isPointClear blockedStartConfig (startPos blockedStartConfig)"
    by (simp add: blockedStartConfig_def isPointClear_def distance_def)
  have d0: "distance (startPos blockedStartConfig) (startPos blockedStartConfig) = 0"
    by (simp add: distance_def)
  have div0: "jsdiv 0 (of_int \<lceil>distance (startPos blockedStartConfig) (startPos blockedStartConfig) / 2\<rceil>) = None"
    by (simp add: d0 jsdiv_def)
  have verdict: "isPathClear blockedStartConfig (startPos blockedStartConfig) (startPos blockedStartConfig)"
    by (simp add: isPathClear_def d0 sampleClear_def jsdiv_def)
  have L: "totalLength stationaryPath = 0"
    by (simp add: stationaryPath_def distance_def)
  have N: "pointsCountOf stationaryPath 10 = 100"
    by (simp add: pointsCountOf_def L)
  have ne: "stationaryPath \<noteq> []" by (simp add: stationaryPath_def)
  have ret: "generateTrajectoryFromPath stationaryPath 10 =
      Inr (map (trajectorySample stationaryPath 10 0 0 100) [0..<100])"
    using generate_returns [of 10 stationaryPath] ne by (simp add: L N)
  have "list_all (\<lambda>sample. sample_position sample = NaNPosition)
          (map (trajectorySample stationaryPath 10 0 0 100) [0..<100])"
    by (simp add: list_all_iff trajectorySample_def distanceAlong_def locate_stationary)
  with ret blocked div0 verdict show ?thesis by simp
qed

subsection \<open>Node keys and replacement in the grid planner\<close>

lemma getNodeKey_floor:
  "getNodeKey pos = (\<lfloor>vx pos + 1 / 2\<rfloor>, \<lfloor>vy pos + 1 / 2\<rfloor>, \<lfloor>vz pos + 1 / 2\<rfloor>)"
  by (simp add: getNodeKey_def mathRound_def)

lemma visitNeighbor_cases:
  "visitNeighbor current cfg st p =
     (if keyClosed st (getNodeKey p)
         \<or> (\<exists>e. nodeMap st (getNodeKey p) = Some e \<and> node_g e \<le> tentativeG current p)
      then st
      else st\<lparr>openSet := openSet st @ [newNeighbor current cfg p],
              nodeMap := (nodeMap st)(getNodeKey p \<mapsto> newNeighbor current cfg p)\<rparr>)"
  by (auto simp add: visitNeighbor_def Let_def split: option.splits)

lemma visitNeighbor_closedSet: "closedSet (visitNeighbor current cfg st p) = closedSet st"
  by (simp add: visitNeighbor_cases)

lemma visitNeighbor_nodeMap_le:
  assumes "nodeMap st k = Some e"
  shows "\<exists>e'. nodeMap (visitNeighbor current cfg st p) k = Some e'
            \<and> (e' = e \<or> node_g e' < node_g e)"
  using assms by (auto simp add: visitNeighbor_cases newNeighbor_def)

lemma fold_nodeMap_le:
  assumes "nodeMap st k = Some e"
  shows "\<exists>e'. nodeMap (foldl (visitNeighbor current cfg) st ps) k = Some e'
            \<and> (e' = e \<or> node_g e' < node_g e)"
  using assms
proof (induction ps arbitrary: st e)
  case Nil
  then show ?case by simp
next
  case (Cons p ps)
  from visitNeighbor_nodeMap_le [OF Cons.prems, of current cfg p]
  obtain e1 where e1: "nodeMap (visitNeighbor current cfg st p) k = Some e1"
    "e1 = e \<or> node_g e1 < node_g e" by blast
  from Cons.IH [OF e1(1)]
  obtain e2 where e2: "nodeMap (foldl (visitNeighbor current cfg) (visitNeighbor current cfg st p) ps) k = Some e2"
    "e2 = e1 \<or> node_g e2 < node_g e1" by blast
  from e1(2) e2(2) have "e2 = e \<or> node_g e2 < node_g e" by auto
  with e2(1) show ?case by simp
qed

subsection \<open>Evaluating the grid planner without obstacles\<close>

lemma isPointClear_no_obstacles: "obstacles cfg = [] \<Longrightarrow> isPointClear cfg p"
  by (simp add: isPointClear_def)

lemma isPathClear_no_obstacles: "obstacles cfg = [] \<Longrightarrow> isPathClear cfg a b"
  by (simp add: isPathClear_def Let_def sampleClear_def isPointClear_no_obstacles list_all_iff
           split: option.splits)

lemma directions_list:
  "directions =
    [(-1,-1,-1), (-1,-1,0), (-1,-1,1), (-1,0,-1), (-1,0,0), (-1,0,1), (-1,1,-1), (-1,1,0), (-1,1,1),
     (0,-1,-1), (0,-1,0), (0,-1,1), (0,0,-1), (0,0,1), (0,1,-1), (0,1,0), (0,1,1),
     (1,-1,-1), (1,-1,0), (1,-1,1), (1,0,-1), (1,0,0), (1,0,1), (1,1,-1), (1,1,0), (1,1,1)]"
  by (simp add: directions_def)

lemma neighborOk_no_obstacles:
  "obstacles cfg = [] \<Longrightarrow> neighborOk cfg node p = (0 \<le> vy p \<and> vy p \<le> 100)"
  by (simp add: neighborOk_def isPointClear_no_obstacles isPathClear_no_obstacles)

lemma getNeighbors_no_obstacles:
  "obstacles cfg = [] \<Longrightarrow>
   getNeighbors cfg node = filter (\<lambda>p. 0 \<le> vy p \<and> vy p \<le> 100) (map (neighborAt cfg node) directions)"
  by (simp add: getNeighbors_def neighborOk_no_obstacles cong: filter_cong)

lemma visitNeighbor_fresh:
  assumes "\<not> keyClosed st (getNodeKey p)" "nodeMap st (getNodeKey p) = None"
  shows "visitNeighbor current cfg st p =
           st\<lparr>openSet := openSet st @ [newNeighbor current cfg p],
              nodeMap := (nodeMap st)(getNodeKey p \<mapsto> newNeighbor current cfg p)\<rparr>"
  using assms by (simp add: visitNeighbor_def)

lemma fold_visit_fresh:
  assumes "distinct (map getNodeKey ps)"
    and "\<forall>p \<in> set ps. \<not> keyClosed st (getNodeKey p) \<and> nodeMap st (getNodeKey p) = None"
  shows "openSet (foldl (visitNeighbor current cfg) st ps)
           = openSet st @ map (newNeighbor current cfg) ps
         \<and> closedSet (foldl (visitNeighbor current cfg) st ps) = closedSet st"
  using assms
proof (induction ps arbitrary: st)
  case Nil
  then show ?case by simp
next
  case (Cons p ps)
  let ?st = "st\<lparr>openSet := openSet st @ [newNeighbor current cfg p],
                 nodeMap := (nodeMap st)(getNodeKey p \<mapsto> newNeighbor current cfg p)\<rparr>"
  from Cons.prems have step: "visitNeighbor current cfg st p = ?st"
    by (simp add: visitNeighbor_fresh)
  have "distinct (map getNodeKey ps)" using Cons.prems(1) by simp
  moreover have "\<forall>q \<in> set ps. \<not> keyClosed ?st (getNodeKey q) \<and> nodeMap ?st (getNodeKey q) = None"
    using Cons.prems by (auto simp add: keyClosed_def image_iff)
  ultimately have "openSet (foldl (visitNeighbor current cfg) ?st ps)
           = openSet ?st @ map (newNeighbor current cfg) ps
         \<and> closedSet (foldl (visitNeighbor current cfg) ?st ps) = closedSet ?st"
    by (rule Cons.IH)
  then show ?case by (simp add: step)
qed

lemma search_expand:
  assumes "openSet st \<noteq> []" "findMin (openSet st) 0 None = Some (f, cur, i)"
    and "\<not> (distance (node_position cur) (endPos cfg) < gridSize cfg * 2
            \<and> isPathClear cfg (node_position cur) (endPos cfg))"
  shows "search cfg (Suc n) st =
           search cfg n (foldl (visitNeighbor cur cfg)
             (st\<lparr>openSet := splice1 i (openSet st), closedSet := closedSet st @ [cur]\<rparr>)
             (getNeighbors cfg cur))"
  by (simp add: Let_def assms(1,2) if_not_P [OF assms(3)])

lemma search_goal:
  assumes "openSet st \<noteq> []" "findMin (openSet st) 0 None = Some (f, cur, i)"
    and "distance (node_position cur) (endPos cfg) < gridSize cfg * 2"
    and "isPathClear cfg (node_position cur) (endPos cfg)"
  shows "search cfg (Suc n) st = (reconstructPath cur @ [endPos cfg], st)"
  using assms by simp

lemma plan_clear:
  assumes "isPointClear cfg (startPos cfg)" "isPointClear cfg (endPos cfg)"
  shows "plan cfg st =
           search cfg (maxIterations cfg)
             (st\<lparr>openSet := openSet st @ [PathNode (startPos cfg) 0 (distance (startPos cfg) (endPos cfg)) None],
                 nodeMap := (nodeMap st)(getNodeKey (startPos cfg) \<mapsto>
                    PathNode (startPos cfg) 0 (distance (startPos cfg) (endPos cfg)) None)\<rparr>)"
  using assms by (simp add: plan_def Let_def)

lemma search_empty_open:
  "openSet st = [] \<Longrightarrow> isPathClear cfg (startPos cfg) (endPos cfg)
   \<Longrightarrow> fst (search cfg (Suc n) st) = [startPos cfg, endPos cfg]"
  by simp

lemma exhausted_fields:
  "startPos exhaustedConfig = \<lparr>vx = 0, vy = 0, vz = 0\<rparr>"
  "endPos exhaustedConfig = \<lparr>vx = 10, vy = 0, vz = 0\<rparr>"
  "obstacles exhaustedConfig = []"
  "gridSize exhaustedConfig = 2"
  "droneRadius exhaustedConfig = 1"
  "maxIterations exhaustedConfig = 1"
  by (simp_all add: exhaustedConfig_def)

text \<open>
  Claim C4. The claim has the exhausted budget fall back as the empty open set does
  (\<open>search_empty_open\<close>: the direct segment first). In \<open>exhaustedConfig\<close> there is no
  obstacle, the direct segment is clear, the single iteration expands the start node,
  and \<^verbatim>\<open>plan\<close> returns the detour over the raised midpoint, not start and goal.
\<close>

theorem exhausted_budget_skips_direct_segment:
  "isPathClear exhaustedConfig (startPos exhaustedConfig) (endPos exhaustedConfig)
   \<and> fst (plan exhaustedConfig newAStarPlanner)
       = [\<lparr>vx = 0, vy = 0, vz = 0\<rparr>, \<lparr>vx = 5, vy = 20, vz = 0\<rparr>, \<lparr>vx = 10, vy = 0, vz = 0\<rparr>]
   \<and> fst (plan exhaustedConfig newAStarPlanner) \<noteq> [startPos exhaustedConfig, endPos exhaustedConfig]"
proof -
  let ?start = "PathNode (startPos exhaustedConfig) 0
      (distance (startPos exhaustedConfig) (endPos exhaustedConfig)) None"
  let ?st0 = "newAStarPlanner\<lparr>openSet := openSet newAStarPlanner @ [?start],
          nodeMap := (nodeMap newAStarPlanner)(getNodeKey (startPos exhaustedConfig) \<mapsto> ?start)\<rparr>"
  have pc: "isPointClear exhaustedConfig p" for p
    by (simp add: isPointClear_no_obstacles exhausted_fields)
  have sc: "isPathClear exhaustedConfig a b" for a b
    by (simp add: isPathClear_no_obstacles exhausted_fields)
  have p: "plan exhaustedConfig newAStarPlanner = search exhaustedConfig (Suc 0) ?st0"
    using plan_clear [OF pc pc, of newAStarPlanner]
    by (simp only: exhausted_fields(6) One_nat_def)
  have ne: "openSet ?st0 \<noteq> []" by simp
  have fm: "findMin (openSet ?st0) 0 None = Some (0 + 10, ?start, 0)"
    by (simp add: newAStarPlanner_def exhausted_fields distance_def)
  have far: "\<not> (distance (node_position ?start) (endPos exhaustedConfig) < gridSize exhaustedConfig * 2
            \<and> isPathClear exhaustedConfig (node_position ?start) (endPos exhaustedConfig))"
    by (simp add: exhausted_fields distance_def)
  have "fst (plan exhaustedConfig newAStarPlanner) = getAlternativePath exhaustedConfig"
    by (simp only: p search_expand [OF ne fm far] search.simps(1) fst_conv)
  moreover have "getAlternativePath exhaustedConfig
      = [\<lparr>vx = 0, vy = 0, vz = 0\<rparr>, \<lparr>vx = 5, vy = 20, vz = 0\<rparr>, \<lparr>vx = 10, vy = 0, vz = 0\<rparr>]"
    by (simp add: getAlternativePath_def sc midPoint_def exhausted_fields)
  ultimately show ?thesis by (simp add: sc)
qed

theorem exhausted_budget_skips_direct_segment_witness:
  "isPointClear exhaustedConfig (startPos exhaustedConfig)
   \<and> isPointClear exhaustedConfig (endPos exhaustedConfig)
   \<and> length (fst (plan exhaustedConfig newAStarPlanner)) = 3"
  using exhausted_budget_skips_direct_segment
  by (simp add: isPointClear_no_obstacles exhausted_fields)

lemma low_fields:
  "startPos lowStartConfig = \<lparr>vx = 0, vy = -2, vz = 0\<rparr>"
  "endPos lowStartConfig = \<lparr>vx = 0, vy = 3, vz = 0\<rparr>"
  "obstacles lowStartConfig = []"
  "gridSize lowStartConfig = 2"
  "droneRadius lowStartConfig = 1"
  "maxIterations lowStartConfig = 1"
  by (simp_all add: lowStartConfig_def)

lemma low_neighbors:
  "getNeighbors lowStartConfig (PathNode \<lparr>vx = 0, vy = -2, vz = 0\<rparr> 0 5 None) =
    [\<lparr>vx = -2, vy = 0, vz = -2\<rparr>, \<lparr>vx = -2, vy = 0, vz = 0\<rparr>, \<lparr>vx = -2, vy = 0, vz = 2\<rparr>,
     \<lparr>vx = 0, vy = 0, vz = -2\<rparr>, \<lparr>vx = 0, vy = 0, vz = 0\<rparr>, \<lparr>vx = 0, vy = 0, vz = 2\<rparr>,
     \<lparr>vx = 2, vy = 0, vz = -2\<rparr>, \<lparr>vx = 2, vy = 0, vz = 0\<rparr>, \<lparr>vx = 2, vy = 0, vz = 2\<rparr>]"
  by (simp add: getNeighbors_no_obstacles low_fields directions_list neighborAt_def)

lemma low_keys:
  "map getNodeKey (getNeighbors lowStartConfig lowStartNode) =
     [(-2,0,-2), (-2,0,0), (-2,0,2), (0,0,-2), (0,0,0), (0,0,2), (2,0,-2), (2,0,0), (2,0,2)]"
  by (simp add: lowStartNode_def low_neighbors getNodeKey_def mathRound_def)

lemma low_new_nodes:
  "map (newNeighbor lowStartNode lowStartConfig) (getNeighbors lowStartConfig lowStartNode) = lowOpen"
  unfolding lowStartNode_def low_neighbors
  by (simp add: newNeighbor_def tentativeG_def low_fields distance_def lowOpen_def lowStartNode_def)

lemma sqrt_facts:
  "sqrt 8 + sqrt 13 < sqrt 12 + sqrt 17"
  "\<not> sqrt 12 + sqrt 17 < sqrt 8 + sqrt 13"
  "5 < sqrt 8 + sqrt 13"
  "\<not> sqrt 8 + sqrt 13 < 5"
  "\<not> sqrt 12 + sqrt 17 < 5"
proof -
  have a: "sqrt 8 < sqrt 12" and b: "sqrt 13 < sqrt 17" by simp_all
  have c: "2 < sqrt 8" by (rule real_less_rsqrt) simp
  have d: "3 < sqrt 13" by (rule real_less_rsqrt) simp
  from a b show "sqrt 8 + sqrt 13 < sqrt 12 + sqrt 17" by linarith
  from a b show "\<not> sqrt 12 + sqrt 17 < sqrt 8 + sqrt 13" by linarith
  from c d show "5 < sqrt 8 + sqrt 13" by linarith
  from c d show "\<not> sqrt 8 + sqrt 13 < 5" by linarith
  from a b c d show "\<not> sqrt 12 + sqrt 17 < 5" by linarith
qed

lemma low_start_node: "PathNode (startPos lowStartConfig) 0
    (distance (startPos lowStartConfig) (endPos lowStartConfig)) None = lowStartNode"
  by (simp add: low_fields lowStartNode_def distance_def)

lemma low_clear: "isPointClear lowStartConfig p" "isPathClear lowStartConfig a b"
  by (simp_all add: isPointClear_no_obstacles isPathClear_no_obstacles low_fields)

lemma low_first_call:
  "fst (plan lowStartConfig newAStarPlanner) = getAlternativePath lowStartConfig"
  "openSet (snd (plan lowStartConfig newAStarPlanner)) = lowOpen"
proof -
  let ?st0 = "newAStarPlanner\<lparr>openSet := openSet newAStarPlanner @ [lowStartNode],
          nodeMap := (nodeMap newAStarPlanner)(getNodeKey (startPos lowStartConfig) \<mapsto> lowStartNode)\<rparr>"
  let ?st1 = "?st0\<lparr>openSet := splice1 0 (openSet ?st0), closedSet := closedSet ?st0 @ [lowStartNode]\<rparr>"
  let ?st2 = "foldl (visitNeighbor lowStartNode lowStartConfig) ?st1 (getNeighbors lowStartConfig lowStartNode)"
  have p: "plan lowStartConfig newAStarPlanner = search lowStartConfig (Suc 0) ?st0"
    using plan_clear [OF low_clear(1) low_clear(1), of newAStarPlanner]
    by (simp only: low_start_node low_fields(6) One_nat_def)
  have ne: "openSet ?st0 \<noteq> []" by simp
  have fm: "findMin (openSet ?st0) 0 None = Some (5, lowStartNode, 0)"
    by (simp add: newAStarPlanner_def lowStartNode_def)
  have far: "\<not> (distance (node_position lowStartNode) (endPos lowStartConfig) < gridSize lowStartConfig * 2
            \<and> isPathClear lowStartConfig (node_position lowStartNode) (endPos lowStartConfig))"
    by (simp add: lowStartNode_def low_fields distance_def)
  have s: "search lowStartConfig (Suc 0) ?st0 = search lowStartConfig 0 ?st2"
    by (rule search_expand [OF ne fm far])
  have fresh: "\<forall>p \<in> set (getNeighbors lowStartConfig lowStartNode).
      \<not> keyClosed ?st1 (getNodeKey p) \<and> nodeMap ?st1 (getNodeKey p) = None"
    apply (simp add: low_neighbors [folded lowStartNode_def])
    apply (simp add: keyClosed_def newAStarPlanner_def lowStartNode_def low_fields
        getNodeKey_def mathRound_def)
    done
  have dist: "distinct (map getNodeKey (getNeighbors lowStartConfig lowStartNode))"
    by (simp add: low_keys)
  from fold_visit_fresh [OF dist fresh, of lowStartNode lowStartConfig]
  have o2: "openSet ?st2 = lowOpen"
    by (simp add: low_new_nodes newAStarPlanner_def splice1_def)
  show "fst (plan lowStartConfig newAStarPlanner) = getAlternativePath lowStartConfig"
    by (simp only: p s search.simps(1) fst_conv)
  show "openSet (snd (plan lowStartConfig newAStarPlanner)) = lowOpen"
    by (simp only: p s search.simps(1) snd_conv o2)
qed

lemma low_findMin:
  "findMin (lowOpen @ [lowStartNode]) 0 None =
     Some (5, PathNode \<lparr>vx = 0, vy = 0, vz = 0\<rparr> 2 3 (Some lowStartNode), 4)"
  by (simp add: lowOpen_def lowStartNode_def sqrt_facts)

lemma low_second_call:
  assumes "openSet st = lowOpen"
  shows "fst (plan lowStartConfig st) =
     [\<lparr>vx = 0, vy = -2, vz = 0\<rparr>, \<lparr>vx = 0, vy = 0, vz = 0\<rparr>, \<lparr>vx = 0, vy = 3, vz = 0\<rparr>]"
proof -
  let ?st0 = "st\<lparr>openSet := openSet st @ [lowStartNode],
          nodeMap := (nodeMap st)(getNodeKey (startPos lowStartConfig) \<mapsto> lowStartNode)\<rparr>"
  let ?mid = "PathNode \<lparr>vx = 0, vy = 0, vz = 0\<rparr> 2 3 (Some lowStartNode)"
  have p: "plan lowStartConfig st = search lowStartConfig (Suc 0) ?st0"
    using plan_clear [OF low_clear(1) low_clear(1), of st]
    by (simp only: low_start_node low_fields(6) One_nat_def)
  have ne: "openSet ?st0 \<noteq> []" by simp
  have fm: "findMin (openSet ?st0) 0 None = Some (5, ?mid, 4)"
    by (simp add: assms low_findMin)
  have near: "distance (node_position ?mid) (endPos lowStartConfig) < gridSize lowStartConfig * 2"
    by (simp add: low_fields distance_def)
  have "search lowStartConfig (Suc 0) ?st0 = (reconstructPath ?mid @ [endPos lowStartConfig], ?st0)"
    by (rule search_goal [OF ne fm near low_clear(2)])
  then show ?thesis
    by (simp add: p reconstructPath_def lowStartNode_def low_fields)
qed

text \<open>
  Claim C9. The claim has a second \<^verbatim>\<open>plan\<close> call on the same planner return what a
  first call on a new planner returns. In \<open>lowStartConfig\<close> the first call uses its one
  iteration on the start node and returns the detour over the raised midpoint; it
  leaves the nine neighbours in the open set. The second call finds the neighbour
  \<open>(0, 0, 0)\<close> there, with the same \<open>f = 5\<close> as the start node and ahead of it, and
  returns the path through it.
\<close>

theorem second_plan_call_differs:
  "fst (plan lowStartConfig newAStarPlanner)
     = [\<lparr>vx = 0, vy = -2, vz = 0\<rparr>, \<lparr>vx = 0, vy = 23, vz = 0\<rparr>, \<lparr>vx = 0, vy = 3, vz = 0\<rparr>]
   \<and> fst (plan lowStartConfig (snd (plan lowStartConfig newAStarPlanner)))
     = [\<lparr>vx = 0, vy = -2, vz = 0\<rparr>, \<lparr>vx = 0, vy = 0, vz = 0\<rparr>, \<lparr>vx = 0, vy = 3, vz = 0\<rparr>]
   \<and> snd (plan lowStartConfig newAStarPlanner) \<noteq> newAStarPlanner"
proof -
  have alt: "getAlternativePath lowStartConfig
      = [\<lparr>vx = 0, vy = -2, vz = 0\<rparr>, \<lparr>vx = 0, vy = 23, vz = 0\<rparr>, \<lparr>vx = 0, vy = 3, vz = 0\<rparr>]"
    by (simp add: getAlternativePath_def low_clear midPoint_def low_fields)
  have "lowOpen \<noteq> openSet newAStarPlanner"
    by (simp add: lowOpen_def newAStarPlanner_def)
  then have "openSet (snd (plan lowStartConfig newAStarPlanner)) \<noteq> openSet newAStarPlanner"
    by (simp add: low_first_call(2))
  then have "snd (plan lowStartConfig newAStarPlanner) \<noteq> newAStarPlanner"
    by auto
  with alt low_first_call(1) low_second_call [OF low_first_call(2)]
  show ?thesis by simp
qed

theorem second_plan_call_differs_witness:
  "isPointClear lowStartConfig (startPos lowStartConfig)
   \<and> isPointClear lowStartConfig (endPos lowStartConfig)
   \<and> fst (plan lowStartConfig (snd (plan lowStartConfig newAStarPlanner)))
       \<noteq> fst (plan lowStartConfig newAStarPlanner)"
  using second_plan_call_differs
  by (simp add: low_clear)

subsection \<open>Expansion order in the grid planner\<close>

lemma crowded_fields:
  "startPos crowdedConfig = \<lparr>vx = 0, vy = 1/4, vz = 0\<rparr>"
  "endPos crowdedConfig = \<lparr>vx = 0, vy = 41/4, vz = 0\<rparr>"
  "obstacles crowdedConfig = []"
  "gridSize crowdedConfig = 1/4"
  "droneRadius crowdedConfig = 1"
  "maxIterations crowdedConfig = 3"
  by (simp_all add: crowdedConfig_def)

lemma crowded_start: "PathNode (startPos crowdedConfig) 0
    (distance (startPos crowdedConfig) (endPos crowdedConfig)) None = crowdedStart"
  by (simp add: crowded_fields crowdedStart_def distance_def)

lemma keyClosed_fold:
  "keyClosed (foldl (visitNeighbor c cfg) st ps) k = keyClosed st k"
proof (induction ps arbitrary: st)
  case Nil
  then show ?case by simp
next
  case (Cons p ps)
  have "keyClosed (visitNeighbor c cfg st p) k = keyClosed st k"
    by (simp add: keyClosed_def visitNeighbor_closedSet)
  with Cons.IH [of "visitNeighbor c cfg st p"] show ?case by simp
qed

lemma visitNeighbor_closed_key:
  "keyClosed st (getNodeKey p) \<Longrightarrow> visitNeighbor c cfg st p = st"
  by (simp add: visitNeighbor_def)

lemma fold_skip_closed:
  "foldl (visitNeighbor c cfg) st ps
     = foldl (visitNeighbor c cfg) st (filter (\<lambda>p. \<not> keyClosed st (getNodeKey p)) ps)"
proof (induction ps rule: rev_induct)
  case Nil
  then show ?case by simp
next
  case (snoc p ps)
  show ?case
  proof (cases "keyClosed st (getNodeKey p)")
    case True
    then have "keyClosed (foldl (visitNeighbor c cfg) st ps) (getNodeKey p)"
      by (simp add: keyClosed_fold)
    then show ?thesis using True snoc.IH by (simp add: visitNeighbor_closed_key)
  next
    case False
    then show ?thesis using snoc.IH by simp
  qed
qed

lemma crowded_neighbors_start:
  "filter (\<lambda>p. getNodeKey p \<noteq> (0, 0, 0)) (getNeighbors crowdedConfig crowdedStart) =
    [\<lparr>vx = -1/4, vy = 1/2, vz = -1/4\<rparr>, \<lparr>vx = -1/4, vy = 1/2, vz = 0\<rparr>, \<lparr>vx = -1/4, vy = 1/2, vz = 1/4\<rparr>,
     \<lparr>vx = 0, vy = 1/2, vz = -1/4\<rparr>, \<lparr>vx = 0, vy = 1/2, vz = 0\<rparr>, \<lparr>vx = 0, vy = 1/2, vz = 1/4\<rparr>,
     \<lparr>vx = 1/4, vy = 1/2, vz = -1/4\<rparr>, \<lparr>vx = 1/4, vy = 1/2, vz = 0\<rparr>, \<lparr>vx = 1/4, vy = 1/2, vz = 1/4\<rparr>]"
  by (simp add: getNeighbors_no_obstacles crowded_fields directions_list neighborAt_def crowdedStart_def
        getNodeKey_def mathRound_def)

lemma crowded_first_fold:
  "openSet (foldl (visitNeighbor crowdedStart crowdedConfig)
      \<lparr>openSet = [], closedSet = [crowdedStart], nodeMap = [(0, 0, 0) \<mapsto> crowdedStart]\<rparr>
      [\<lparr>vx = -1/4, vy = 1/2, vz = -1/4\<rparr>, \<lparr>vx = -1/4, vy = 1/2, vz = 0\<rparr>, \<lparr>vx = -1/4, vy = 1/2, vz = 1/4\<rparr>,
       \<lparr>vx = 0, vy = 1/2, vz = -1/4\<rparr>, \<lparr>vx = 0, vy = 1/2, vz = 0\<rparr>, \<lparr>vx = 0, vy = 1/2, vz = 1/4\<rparr>,
       \<lparr>vx = 1/4, vy = 1/2, vz = -1/4\<rparr>, \<lparr>vx = 1/4, vy = 1/2, vz = 0\<rparr>, \<lparr>vx = 1/4, vy = 1/2, vz = 1/4\<rparr>])
   = [crowdedA, crowdedB, crowdedC]"
  by (simp add: visitNeighbor_def keyClosed_def getNodeKey_def mathRound_def tentativeG_def
        newNeighbor_def distance_def crowded_fields crowdedStart_def crowdedA_def crowdedB_def crowdedC_def)

lemma closedSet_fold:
  "closedSet (foldl (visitNeighbor c cfg) st ps) = closedSet st"
  by (induction ps arbitrary: st) (simp_all add: visitNeighbor_closedSet)

lemma fold_all_closed:
  assumes "\<forall>p \<in> set ps. keyClosed st (getNodeKey p)"
  shows "foldl (visitNeighbor c cfg) st ps = st"
proof -
  from assms have "filter (\<lambda>p. \<not> keyClosed st (getNodeKey p)) ps = []"
    by (simp add: filter_empty_conv)
  with fold_skip_closed [of c cfg st ps] show ?thesis by simp
qed

lemma search_expand_closed:
  assumes "openSet st \<noteq> []" "findMin (openSet st) 0 None = Some (f, cur, i)"
    and "\<not> (distance (node_position cur) (endPos cfg) < gridSize cfg * 2
            \<and> isPathClear cfg (node_position cur) (endPos cfg))"
    and "\<forall>p \<in> set (getNeighbors cfg cur).
           keyClosed (st\<lparr>openSet := splice1 i (openSet st), closedSet := closedSet st @ [cur]\<rparr>)
             (getNodeKey p)"
  shows "search cfg (Suc n) st =
           search cfg n (st\<lparr>openSet := splice1 i (openSet st), closedSet := closedSet st @ [cur]\<rparr>)"
  by (simp only: search_expand [OF assms(1,2,3)] fold_all_closed [OF assms(4)])

lemma crowded_sqrt_facts:
  "sqrt (1/8) + sqrt (761/8) < sqrt (3/16) + sqrt (1523/16)"
  "sqrt (1/16) + sqrt (1521/16) < sqrt (1/8) + sqrt (761/8)"
  "\<not> sqrt (1521/16) * 2 < 1"
  "\<not> sqrt (761/8) * 2 < 1"
proof -
  have a: "sqrt (1/8) < sqrt (3/16)" and b: "sqrt (761/8) < sqrt (1523/16)"
    and c: "sqrt (1/16) < sqrt (1/8)" and d: "sqrt (1521/16) < sqrt (761/8)"
    by simp_all
  have e: "1/2 < sqrt (1521/16)" by (rule real_less_rsqrt) (simp add: power2_eq_square)
  from a b show "sqrt (1/8) + sqrt (761/8) < sqrt (3/16) + sqrt (1523/16)" by linarith
  from c d show "sqrt (1/16) + sqrt (1521/16) < sqrt (1/8) + sqrt (761/8)" by linarith
  from e show "\<not> sqrt (1521/16) * 2 < 1" by linarith
  from e d show "\<not> sqrt (761/8) * 2 < 1" by linarith
qed

lemma crowded_keys_C:
  "map getNodeKey (getNeighbors crowdedConfig crowdedC) =
    [(0,0,0), (0,0,0), (0,0,0), (0,1,0), (0,1,0), (0,1,0), (0,1,0), (0,1,0), (0,1,0),
     (0,0,0), (0,0,0), (0,0,0), (0,1,0), (0,1,0), (0,1,0), (0,1,0), (0,1,0),
     (0,0,0), (0,0,0), (0,0,0), (0,1,0), (0,1,0), (0,1,0), (0,1,0), (0,1,0), (0,1,0)]"
  by (simp add: getNeighbors_no_obstacles crowded_fields directions_list neighborAt_def crowdedC_def
        getNodeKey_def mathRound_def)

lemma crowded_keys_B:
  "map getNodeKey (getNeighbors crowdedConfig crowdedB) =
    [(0,0,0), (0,0,0), (0,0,0), (0,1,0), (0,1,0), (0,1,0), (0,1,0), (0,1,0), (0,1,0),
     (0,0,0), (0,0,0), (0,0,0), (0,1,0), (0,1,0), (0,1,0), (0,1,0), (0,1,0),
     (0,0,0), (0,0,0), (0,0,0), (0,1,0), (0,1,0), (0,1,0), (0,1,0), (0,1,0), (0,1,0)]"
  by (simp add: getNeighbors_no_obstacles crowded_fields directions_list neighborAt_def crowdedB_def
        getNodeKey_def mathRound_def)

lemma crowded_node_keys:
  "getNodeKey (node_position crowdedStart) = (0, 0, 0)"
  "getNodeKey (node_position crowdedA) = (0, 1, 0)"
  "getNodeKey (node_position crowdedB) = (0, 1, 0)"
  "getNodeKey (node_position crowdedC) = (0, 1, 0)"
  by (simp_all add: crowdedStart_def crowdedA_def crowdedB_def crowdedC_def getNodeKey_def mathRound_def)

lemma keys_closed:
  assumes "set (map getNodeKey ps) \<subseteq> set (map (\<lambda>n. getNodeKey (node_position n)) (closedSet st))"
  shows "\<forall>p \<in> set ps. keyClosed st (getNodeKey p)"
proof
  fix p assume "p \<in> set ps"
  then have "getNodeKey p \<in> set (map getNodeKey ps)" by simp
  with assms have "getNodeKey p \<in> set (map (\<lambda>n. getNodeKey (node_position n)) (closedSet st))"
    by blast
  then show "keyClosed st (getNodeKey p)"
    by (auto simp add: keyClosed_def list_ex_iff)
qed

lemma crowded_closed_nodes:
  "closedSet (snd (plan crowdedConfig newAStarPlanner)) = [crowdedStart, crowdedC, crowdedB]"
proof -
  let ?st0 = "newAStarPlanner\<lparr>openSet := openSet newAStarPlanner @ [crowdedStart],
          nodeMap := (nodeMap newAStarPlanner)(getNodeKey (startPos crowdedConfig) \<mapsto> crowdedStart)\<rparr>"
  let ?st1 = "?st0\<lparr>openSet := splice1 0 (openSet ?st0), closedSet := closedSet ?st0 @ [crowdedStart]\<rparr>"
  define st2 where "st2 = foldl (visitNeighbor crowdedStart crowdedConfig) ?st1
      (getNeighbors crowdedConfig crowdedStart)"
  define st3 where "st3 = st2\<lparr>openSet := splice1 2 (openSet st2), closedSet := closedSet st2 @ [crowdedC]\<rparr>"
  define st4 where "st4 = st3\<lparr>openSet := splice1 1 (openSet st3), closedSet := closedSet st3 @ [crowdedB]\<rparr>"
  have pc: "isPointClear crowdedConfig p" for p
    by (simp add: isPointClear_no_obstacles crowded_fields)
  have p: "plan crowdedConfig newAStarPlanner = search crowdedConfig (Suc (Suc (Suc 0))) ?st0"
    using plan_clear [OF pc pc, of newAStarPlanner]
    by (simp only: crowded_start crowded_fields(6) numeral_3_eq_3)
  have ne0: "openSet ?st0 \<noteq> []" by simp
  have fm0: "findMin (openSet ?st0) 0 None = Some (0 + 10, crowdedStart, 0)"
    by (simp add: newAStarPlanner_def crowdedStart_def)
  have far0: "\<not> (distance (node_position crowdedStart) (endPos crowdedConfig) < gridSize crowdedConfig * 2
            \<and> isPathClear crowdedConfig (node_position crowdedStart) (endPos crowdedConfig))"
    by (simp add: crowdedStart_def crowded_fields distance_def)
  have s0: "search crowdedConfig (Suc (Suc (Suc 0))) ?st0 = search crowdedConfig (Suc (Suc 0)) st2"
    unfolding st2_def by (rule search_expand [OF ne0 fm0 far0])
  have pred: "(\<lambda>p. \<not> keyClosed \<lparr>openSet = [], closedSet = [crowdedStart],
                     nodeMap = [(0, 0, 0) \<mapsto> crowdedStart]\<rparr> (getNodeKey p))
              = (\<lambda>p. getNodeKey p \<noteq> (0, 0, 0))"
    by (auto simp add: keyClosed_def crowded_node_keys)
  have st1: "?st1 = \<lparr>openSet = [], closedSet = [crowdedStart], nodeMap = [(0, 0, 0) \<mapsto> crowdedStart]\<rparr>"
    by (simp add: newAStarPlanner_def splice1_def crowded_fields getNodeKey_def mathRound_def)
  have open2: "openSet st2 = [crowdedA, crowdedB, crowdedC]"
    unfolding st2_def st1
    by (subst fold_skip_closed) (simp only: pred crowded_neighbors_start crowded_first_fold)
  have closed2: "closedSet st2 = [crowdedStart]"
    unfolding st2_def by (simp add: closedSet_fold newAStarPlanner_def)
  have ne2: "openSet st2 \<noteq> []" by (simp add: open2)
  have fm2: "findMin (openSet st2) 0 None = Some (sqrt (1/16) + sqrt (1521/16), crowdedC, 2)"
    by (simp add: open2 crowdedA_def crowdedB_def crowdedC_def crowded_sqrt_facts)
  have far2: "\<not> (distance (node_position crowdedC) (endPos crowdedConfig) < gridSize crowdedConfig * 2
            \<and> isPathClear crowdedConfig (node_position crowdedC) (endPos crowdedConfig))"
    by (simp add: crowdedC_def crowded_fields distance_def crowded_sqrt_facts)
  have cl2: "\<forall>p \<in> set (getNeighbors crowdedConfig crowdedC).
      keyClosed (st2\<lparr>openSet := splice1 2 (openSet st2), closedSet := closedSet st2 @ [crowdedC]\<rparr>)
        (getNodeKey p)"
    by (rule keys_closed) (simp add: crowded_keys_C closed2 crowded_node_keys)
  have s2: "search crowdedConfig (Suc (Suc 0)) st2 = search crowdedConfig (Suc 0) st3"
    unfolding st3_def by (rule search_expand_closed [OF ne2 fm2 far2 cl2])
  have open3: "openSet st3 = [crowdedA, crowdedB]"
    by (simp add: st3_def open2 splice1_def)
  have closed3: "closedSet st3 = [crowdedStart, crowdedC]"
    by (simp add: st3_def closed2)
  have ne3: "openSet st3 \<noteq> []" by (simp add: open3)
  have fm3: "findMin (openSet st3) 0 None = Some (sqrt (1/8) + sqrt (761/8), crowdedB, 1)"
    by (simp add: open3 crowdedA_def crowdedB_def crowded_sqrt_facts)
  have far3: "\<not> (distance (node_position crowdedB) (endPos crowdedConfig) < gridSize crowdedConfig * 2
            \<and> isPathClear crowdedConfig (node_position crowdedB) (endPos crowdedConfig))"
    by (simp add: crowdedB_def crowded_fields distance_def crowded_sqrt_facts)
  have cl3: "\<forall>p \<in> set (getNeighbors crowdedConfig crowdedB).
      keyClosed (st3\<lparr>openSet := splice1 1 (openSet st3), closedSet := closedSet st3 @ [crowdedB]\<rparr>)
        (getNodeKey p)"
    by (rule keys_closed) (simp add: crowded_keys_B closed3 crowded_node_keys)
  have s3: "search crowdedConfig (Suc 0) st3 = search crowdedConfig 0 st4"
    unfolding st4_def by (rule search_expand_closed [OF ne3 fm3 far3 cl3])
  have "snd (plan crowdedConfig newAStarPlanner) = st4"
    by (simp only: p s0 s2 s3 search.simps(1) snd_conv)
  moreover have "closedSet st4 = [crowdedStart, crowdedC, crowdedB]"
    by (simp add: st4_def closed3)
  ultimately show ?thesis by simp
qed

lemma visitNeighbor_keeps_open:
  "n \<in> set (openSet st) \<Longrightarrow> n \<in> set (openSet (visitNeighbor current cfg st p))"
  by (simp add: visitNeighbor_cases)

lemma search_one_expansion:
  assumes "openSet st \<noteq> []" "findMin (openSet st) 0 None = Some (f, cur, i)"
    and "\<not> (distance (node_position cur) (endPos cfg) < gridSize cfg * 2
            \<and> isPathClear cfg (node_position cur) (endPos cfg))"
  shows "closedSet (snd (search cfg (Suc 0) st)) = closedSet st @ [cur]"
  by (simp only: search_expand [OF assms] search.simps(1) snd_conv closedSet_fold)
     simp

text \<open>
  Claim C5, as the source has it. The key of a position is each coordinate rounded to
  the nearest integer (half up), whatever \<^verbatim>\<open>gridSize\<close> is. The key only filters the
  candidates of an expansion: a neighbour whose key is the key of a closed node, or
  whose key holds in the node map a node with a cost \<open>g\<close> not above the neighbour's,
  changes nothing; a neighbour with a free key, or with a strictly lower \<open>g\<close> than the
  node that the node map holds at its key, is appended to the open set and overwrites
  the entry of its key in the node map; no other key changes, and over the neighbours
  of one expansion an entry of the node map is overwritten only by nodes of strictly
  lower \<open>g\<close>. An accepted candidate removes nothing from the open set: the node whose
  entry it overwrites stays there. The node taken for expansion is the open node of
  least \<open>g + h\<close>, with no test of its key: unless the search ends at it, it is appended
  to the closed set, whatever keys the closed nodes have.
\<close>

theorem node_key_and_replacement:
  "getNodeKey p = (\<lfloor>vx p + 1 / 2\<rfloor>, \<lfloor>vy p + 1 / 2\<rfloor>, \<lfloor>vz p + 1 / 2\<rfloor>)
   \<and> (keyClosed st (getNodeKey p) \<longrightarrow> visitNeighbor current cfg st p = st)
   \<and> (\<forall>e. nodeMap st (getNodeKey p) = Some e \<and> node_g e \<le> tentativeG current p
          \<longrightarrow> visitNeighbor current cfg st p = st)
   \<and> (\<forall>e. \<not> keyClosed st (getNodeKey p) \<and> nodeMap st (getNodeKey p) = Some e
            \<and> tentativeG current p < node_g e
          \<longrightarrow> nodeMap (visitNeighbor current cfg st p) (getNodeKey p) = Some (newNeighbor current cfg p)
              \<and> openSet (visitNeighbor current cfg st p) = openSet st @ [newNeighbor current cfg p])
   \<and> (\<not> keyClosed st (getNodeKey p) \<and> nodeMap st (getNodeKey p) = None
          \<longrightarrow> nodeMap (visitNeighbor current cfg st p) (getNodeKey p) = Some (newNeighbor current cfg p)
              \<and> openSet (visitNeighbor current cfg st p) = openSet st @ [newNeighbor current cfg p])
   \<and> (\<forall>k. k \<noteq> getNodeKey p \<longrightarrow> nodeMap (visitNeighbor current cfg st p) k = nodeMap st k)
   \<and> (\<forall>k e. nodeMap st k = Some e \<longrightarrow>
          (\<exists>e'. nodeMap (foldl (visitNeighbor current cfg) st ps) k = Some e'
                \<and> (e' = e \<or> node_g e' < node_g e)))
   \<and> (\<forall>n \<in> set (openSet st). n \<in> set (openSet (visitNeighbor current cfg st p)))
   \<and> (\<forall>f cur i. openSet st \<noteq> [] \<and> findMin (openSet st) 0 None = Some (f, cur, i)
          \<and> \<not> (distance (node_position cur) (endPos cfg) < gridSize cfg * 2
                 \<and> isPathClear cfg (node_position cur) (endPos cfg))
          \<longrightarrow> closedSet (snd (search cfg (Suc 0) st)) = closedSet st @ [cur])"
proof -
  have a: "\<forall>n \<in> set (openSet st). n \<in> set (openSet (visitNeighbor current cfg st p))"
    by (simp add: visitNeighbor_keeps_open)
  have b: "\<forall>f cur i. openSet st \<noteq> [] \<and> findMin (openSet st) 0 None = Some (f, cur, i)
          \<and> \<not> (distance (node_position cur) (endPos cfg) < gridSize cfg * 2
                 \<and> isPathClear cfg (node_position cur) (endPos cfg))
          \<longrightarrow> closedSet (snd (search cfg (Suc 0) st)) = closedSet st @ [cur]"
    using search_one_expansion [of st _ _ _ cfg] by blast
  have c: "getNodeKey p = (\<lfloor>vx p + 1 / 2\<rfloor>, \<lfloor>vy p + 1 / 2\<rfloor>, \<lfloor>vz p + 1 / 2\<rfloor>)
   \<and> (keyClosed st (getNodeKey p) \<longrightarrow> visitNeighbor current cfg st p = st)
   \<and> (\<forall>e. nodeMap st (getNodeKey p) = Some e \<and> node_g e \<le> tentativeG current p
          \<longrightarrow> visitNeighbor current cfg st p = st)
   \<and> (\<forall>e. \<not> keyClosed st (getNodeKey p) \<and> nodeMap st (getNodeKey p) = Some e
            \<and> tentativeG current p < node_g e
          \<longrightarrow> nodeMap (visitNeighbor current cfg st p) (getNodeKey p) = Some (newNeighbor current cfg p)
              \<and> openSet (visitNeighbor current cfg st p) = openSet st @ [newNeighbor current cfg p])
   \<and> (\<not> keyClosed st (getNodeKey p) \<and> nodeMap st (getNodeKey p) = None
          \<longrightarrow> nodeMap (visitNeighbor current cfg st p) (getNodeKey p) = Some (newNeighbor current cfg p)
              \<and> openSet (visitNeighbor current cfg st p) = openSet st @ [newNeighbor current cfg p])
   \<and> (\<forall>k. k \<noteq> getNodeKey p \<longrightarrow> nodeMap (visitNeighbor current cfg st p) k = nodeMap st k)
   \<and> (\<forall>k e. nodeMap st k = Some e \<longrightarrow>
          (\<exists>e'. nodeMap (foldl (visitNeighbor current cfg) st ps) k = Some e'
                \<and> (e' = e \<or> node_g e' < node_g e)))"
    using fold_nodeMap_le [of st _ _ current cfg ps]
    by (auto simp add: getNodeKey_floor visitNeighbor_cases)
  from a b c show ?thesis by blast
qed

theorem node_key_and_replacement_witness:
  "\<not> keyClosed costlyState (getNodeKey \<lparr>vx = 2, vy = 0, vz = 0\<rparr>)
   \<and> nodeMap costlyState (getNodeKey \<lparr>vx = 2, vy = 0, vz = 0\<rparr>) = Some costlyNode
   \<and> tentativeG originNode \<lparr>vx = 2, vy = 0, vz = 0\<rparr> < node_g costlyNode
   \<and> nodeMap (visitNeighbor originNode blockedStartConfig costlyState \<lparr>vx = 2, vy = 0, vz = 0\<rparr>)
        (getNodeKey \<lparr>vx = 2, vy = 0, vz = 0\<rparr>)
      = Some (PathNode \<lparr>vx = 2, vy = 0, vz = 0\<rparr> 2 18 (Some originNode))
   \<and> openSet (visitNeighbor originNode blockedStartConfig costlyState \<lparr>vx = 2, vy = 0, vz = 0\<rparr>)
      = [costlyNode, PathNode \<lparr>vx = 2, vy = 0, vz = 0\<rparr> 2 18 (Some originNode)]
   \<and> findMin (openSet crowdedState) 0 None = Some (sqrt (1/8) + sqrt (761/8), crowdedB, 1)
   \<and> \<not> distance (node_position crowdedB) (endPos crowdedConfig) < gridSize crowdedConfig * 2
   \<and> keyClosed crowdedState (getNodeKey (node_position crowdedB))
   \<and> closedSet (snd (search crowdedConfig (Suc 0) crowdedState))
      = [crowdedStart, crowdedC, crowdedB]"
proof -
  have key: "getNodeKey \<lparr>vx = 2, vy = 0, vz = 0\<rparr> = (2, 0, 0)"
    by (simp add: getNodeKey_def mathRound_def)
  have open_key: "\<not> keyClosed costlyState (2, 0, 0)"
    by (simp add: keyClosed_def costlyState_def originNode_def getNodeKey_def mathRound_def)
  have held: "nodeMap costlyState (2, 0, 0) = Some costlyNode"
    by (simp add: costlyState_def)
  have lower: "tentativeG originNode \<lparr>vx = 2, vy = 0, vz = 0\<rparr> < node_g costlyNode"
    by (simp add: tentativeG_def originNode_def costlyNode_def distance_def)
  have new: "newNeighbor originNode blockedStartConfig \<lparr>vx = 2, vy = 0, vz = 0\<rparr>
      = PathNode \<lparr>vx = 2, vy = 0, vz = 0\<rparr> 2 18 (Some originNode)"
    by (simp add: newNeighbor_def tentativeG_def originNode_def blockedStartConfig_def distance_def)
  have op: "openSet costlyState = [costlyNode]" by (simp add: costlyState_def)
  from node_key_and_replacement
         [of "\<lparr>vx = 2, vy = 0, vz = 0\<rparr>" costlyState originNode blockedStartConfig "[]"]
       open_key held lower
  have first: "\<not> keyClosed costlyState (getNodeKey \<lparr>vx = 2, vy = 0, vz = 0\<rparr>)
   \<and> nodeMap costlyState (getNodeKey \<lparr>vx = 2, vy = 0, vz = 0\<rparr>) = Some costlyNode
   \<and> tentativeG originNode \<lparr>vx = 2, vy = 0, vz = 0\<rparr> < node_g costlyNode
   \<and> nodeMap (visitNeighbor originNode blockedStartConfig costlyState \<lparr>vx = 2, vy = 0, vz = 0\<rparr>)
        (getNodeKey \<lparr>vx = 2, vy = 0, vz = 0\<rparr>)
      = Some (PathNode \<lparr>vx = 2, vy = 0, vz = 0\<rparr> 2 18 (Some originNode))
   \<and> openSet (visitNeighbor originNode blockedStartConfig costlyState \<lparr>vx = 2, vy = 0, vz = 0\<rparr>)
      = [costlyNode, PathNode \<lparr>vx = 2, vy = 0, vz = 0\<rparr> 2 18 (Some originNode)]"
    by (simp add: key new op)
  have ne: "openSet crowdedState \<noteq> []" by (simp add: crowdedState_def)
  have fm: "findMin (openSet crowdedState) 0 None = Some (sqrt (1/8) + sqrt (761/8), crowdedB, 1)"
    by (simp add: crowdedState_def crowdedA_def crowdedB_def crowded_sqrt_facts)
  have far: "\<not> distance (node_position crowdedB) (endPos crowdedConfig) < gridSize crowdedConfig * 2"
    by (simp add: crowdedB_def crowded_fields distance_def crowded_sqrt_facts)
  have closed: "keyClosed crowdedState (getNodeKey (node_position crowdedB))"
    by (simp add: keyClosed_def crowdedState_def crowded_node_keys)
  from node_key_and_replacement
         [of "\<lparr>vx = 0, vy = 0, vz = 0\<rparr>" crowdedState crowdedStart crowdedConfig "[]"]
       ne fm far
  have "closedSet (snd (search crowdedConfig (Suc 0) crowdedState)) = closedSet crowdedState @ [crowdedB]"
    by blast
  then have second: "closedSet (snd (search crowdedConfig (Suc 0) crowdedState))
      = [crowdedStart, crowdedC, crowdedB]"
    by (simp add: crowdedState_def)
  from first fm far closed second show ?thesis by blast
qed

text \<open>
  Two ways in which the source departs from the sentence. With \<open>gridStep = 2\<close> the
  positions \<open>(3, 0, 0)\<close> and \<open>(4, 0, 0)\<close> round to the same multiple of the grid step, 4,
  but have different keys in the source, 3 and 4. And the expanded nodes are not
  deduplicated by the key: on a fresh planner, \<^verbatim>\<open>plan()\<close> for \<open>crowdedConfig\<close> expands
  the start node, of key \<open>(0, 0, 0)\<close>, then \<open>crowdedC\<close> and then the superseded
  \<open>crowdedB\<close>, both of key \<open>(0, 1, 0)\<close>.
\<close>

theorem node_key_counterexample:
  "specNodeKey 2 \<lparr>vx = 3, vy = 0, vz = 0\<rparr> = specNodeKey 2 \<lparr>vx = 4, vy = 0, vz = 0\<rparr>
   \<and> getNodeKey \<lparr>vx = 3, vy = 0, vz = 0\<rparr> \<noteq> getNodeKey \<lparr>vx = 4, vy = 0, vz = 0\<rparr>
   \<and> getNodeKey \<lparr>vx = 3, vy = 0, vz = 0\<rparr> = (3, 0, 0)
   \<and> specNodeKey 2 \<lparr>vx = 3, vy = 0, vz = 0\<rparr> = (4, 0, 0)
   \<and> closedSet (snd (plan crowdedConfig newAStarPlanner)) = [crowdedStart, crowdedC, crowdedB]
   \<and> map (\<lambda>n. getNodeKey (node_position n)) (closedSet (snd (plan crowdedConfig newAStarPlanner)))
       = [(0, 0, 0), (0, 1, 0), (0, 1, 0)]"
proof -
  have keys: "specNodeKey 2 \<lparr>vx = 3, vy = 0, vz = 0\<rparr> = (4, 0, 0)"
    "specNodeKey 2 \<lparr>vx = 4, vy = 0, vz = 0\<rparr> = (4, 0, 0)"
    "getNodeKey \<lparr>vx = 3, vy = 0, vz = 0\<rparr> = (3, 0, 0)"
    "getNodeKey \<lparr>vx = 4, vy = 0, vz = 0\<rparr> = (4, 0, 0)"
    by (simp_all add: specNodeKey_def getNodeKey_def mathRound_def)
  show ?thesis
    by (simp add: keys crowded_closed_nodes crowded_node_keys)
qed

subsection \<open>The tree planner: path reconstruction\<close>

lemma predecessorStep_Some:
  "\<exists>b'. predecessorStep cfg current (Some b) a = Some b'"
  by (cases b) (simp add: predecessorStep_def Let_def)

lemma predecessor_fold_Some:
  "foldl (predecessorStep cfg current) (Some b) nodes \<noteq> None"
proof (induction nodes arbitrary: b)
  case Nil
  then show ?case by simp
next
  case (Cons a nodes)
  from predecessorStep_Some [of cfg current b a]
  obtain b' where "predecessorStep cfg current (Some b) a = Some b'" by blast
  with Cons.IH [of b'] show ?case by simp
qed

lemma predecessor_fold_member:
  assumes "foldl (predecessorStep cfg current) best nodes = Some (d, n)"
  shows "n \<in> set nodes \<or> best = Some (d, n)"
  using assms
proof (induction nodes arbitrary: best)
  case Nil
  then show ?case by simp
next
  case (Cons a nodes)
  from Cons.IH [OF Cons.prems [simplified]]
  show ?case
    by (auto simp add: predecessorStep_def Let_def split: if_splits option.splits prod.splits)
qed

lemma predecessor_fold_finds:
  assumes "node \<in> set nodes" "fst node \<noteq> fst current" "isPathClear cfg (snd node) (snd current)"
  shows "foldl (predecessorStep cfg current) best nodes \<noteq> None"
  using assms
proof (induction nodes arbitrary: best)
  case Nil
  then show ?case by simp
next
  case (Cons a nodes)
  show ?case
  proof (cases best)
    case (Some b)
    from predecessorStep_Some [of cfg current b a]
    obtain b' where "predecessorStep cfg current (Some b) a = Some b'" by blast
    then show ?thesis
      using predecessor_fold_Some [of cfg current b' nodes] by (simp add: Some)
  next
    case None
    show ?thesis
    proof (cases "a = node")
      case True
      with Cons.prems None
      obtain b' where "predecessorStep cfg current best a = Some b'"
        by (simp add: predecessorStep_def Let_def)
      then show ?thesis
        using predecessor_fold_Some [of cfg current b' nodes] by simp
    next
      case False
      with Cons.prems have "node \<in> set nodes" by simp
      from Cons.IH [OF this Cons.prems(2,3)] show ?thesis by simp
    qed
  qed
qed

lemma findPredecessor_member:
  "findPredecessor cfg nodes current = Some n \<Longrightarrow> n \<in> set nodes"
  using predecessor_fold_member [of cfg current None nodes]
  by (auto simp add: findPredecessor_def)

lemma findPredecessor_finds:
  assumes "node \<in> set nodes" "fst node \<noteq> fst current" "isPathClear cfg (snd node) (snd current)"
  shows "findPredecessor cfg nodes current \<noteq> None"
  using predecessor_fold_finds [OF assms, of None]
  by (simp add: findPredecessor_def)

text \<open>When every node of the sequence has a predecessor, the walk never reaches its \<^verbatim>\<open>break\<close>.\<close>

lemma rrtWalk_diverges:
  assumes all: "\<And>c. c \<in> set nodes \<Longrightarrow> findPredecessor cfg nodes c \<noteq> None"
    and cur: "current \<in> set nodes"
  shows "rrtWalk cfg nodes current path = None"
proof (rule ccontr)
  assume "rrtWalk cfg nodes current path \<noteq> None"
  then obtain y where y: "rrtWalk cfg nodes current path = Some y" by auto
  have "cfg = cfg \<longrightarrow> nodes = nodes \<longrightarrow> current \<in> set nodes \<longrightarrow> False"
  proof (rule rrtWalk.raw_induct
      [where P = "\<lambda>c ns cu p r. c = cfg \<longrightarrow> ns = nodes \<longrightarrow> cu \<in> set nodes \<longrightarrow> False", OF _ y])
    fix walk c ns cu p r
    assume IH: "\<And>c ns cu p r. walk c ns cu p = Some r
                  \<Longrightarrow> c = cfg \<longrightarrow> ns = nodes \<longrightarrow> cu \<in> set nodes \<longrightarrow> False"
      and step: "(case findPredecessor c ns cu of
                    None \<Rightarrow> Some (snd cu # p)
                  | Some nearest \<Rightarrow> walk c ns nearest (snd cu # p)) = Some r"
    show "c = cfg \<longrightarrow> ns = nodes \<longrightarrow> cu \<in> set nodes \<longrightarrow> False"
    proof (intro impI)
      assume eq: "c = cfg" "ns = nodes" and mem: "cu \<in> set nodes"
      from all [OF mem] obtain nearest where n: "findPredecessor cfg nodes cu = Some nearest"
        by auto
      then have "nearest \<in> set nodes" by (rule findPredecessor_member)
      moreover from step n eq have "walk cfg nodes nearest (snd cu # p) = Some r"
        by simp
      ultimately show False using IH by blast
    qed
  qed
  with cur show False by blast
qed

lemma step_Some:
  assumes "0 < stepSize"
  shows "\<exists>p. step fresh a b stepSize = Some p \<and> (p = b \<or> fst p = fresh)"
proof (cases "distance (snd a) (snd b) < stepSize")
  case True
  then show ?thesis by (simp add: step_def)
next
  case False
  with assms have "distance (snd a) (snd b) \<noteq> 0" by auto
  with False show ?thesis by (simp add: step_def jsdiv_def)
qed

lemma rrtLoop_grows:
  assumes "obstacles cfg = []" "0 < gridSize cfg"
    and "rrtLoop cfg rnd n it k nodes = (nodes', r)"
    and "nodes \<noteq> []" "fst (hd nodes) = 0" "\<forall>m \<in> set (tl nodes). fst m \<noteq> 0"
    and "0 < n \<or> 2 \<le> length nodes"
  shows "nodes' \<noteq> [] \<and> fst (hd nodes') = 0 \<and> (\<forall>m \<in> set (tl nodes'). fst m \<noteq> 0)
         \<and> 2 \<le> length nodes' \<and> (\<forall>p. r = Some p \<longrightarrow> p \<in> set nodes')"
  using assms(3-)
proof (induction n arbitrary: it k nodes)
  case 0
  then show ?case by simp
next
  case (Suc n)
  define randomPt where "randomPt =
    (if rnd k < 0.1 then (1, endPos cfg) else (2 + 2 * it, randomPoint rnd (k + 1)))"
  define k1 where "k1 = (if rnd k < 0.1 then k + 1 else k + 4)"
  define nearest where "nearest = nearestNode nodes (snd randomPt)"
  from assms(2) have "0 < gridSize cfg * 2" by simp
  from step_Some [OF this, of "3 + 2 * it" nearest randomPt]
  obtain newPoint where np: "step (3 + 2 * it) nearest randomPt (gridSize cfg * 2) = Some newPoint"
    and np_id: "newPoint = randomPt \<or> fst newPoint = 3 + 2 * it" by blast
  have fresh: "fst newPoint \<noteq> 0"
    using np_id by (auto simp add: randomPt_def)
  let ?nodes = "nodes @ [newPoint]"
  have inv: "?nodes \<noteq> []" "fst (hd ?nodes) = 0" "\<forall>m \<in> set (tl ?nodes). fst m \<noteq> 0"
      "2 \<le> length ?nodes"
    using Suc.prems(2,3,4) fresh by (cases nodes; auto)+
  have pc: "isPointClear cfg (snd newPoint)"
    by (rule isPointClear_no_obstacles [OF assms(1)])
  have sc: "isPathClear cfg (snd nearest) (snd newPoint)"
    by (rule isPathClear_no_obstacles [OF assms(1)])
  have "rrtLoop cfg rnd (Suc n) it k nodes =
     (case step (3 + 2 * it) nearest randomPt (gridSize cfg * 2) of
        None \<Rightarrow> rrtLoop cfg rnd n (Suc it) k1 nodes
      | Some newPoint \<Rightarrow>
          if isPointClear cfg (snd newPoint) \<and> isPathClear cfg (snd nearest) (snd newPoint)
          then
            if distance (snd newPoint) (endPos cfg) < gridSize cfg * 3
               \<and> isPathClear cfg (snd newPoint) (endPos cfg)
            then (nodes @ [newPoint], Some newPoint)
            else rrtLoop cfg rnd n (Suc it) k1 (nodes @ [newPoint])
          else rrtLoop cfg rnd n (Suc it) k1 nodes)"
    by (simp only: rrtLoop.simps Let_def randomPt_def nearest_def k1_def)
  also have "\<dots> =
     (if distance (snd newPoint) (endPos cfg) < gridSize cfg * 3
         \<and> isPathClear cfg (snd newPoint) (endPos cfg)
      then (nodes @ [newPoint], Some newPoint)
      else rrtLoop cfg rnd n (Suc it) k1 (nodes @ [newPoint]))"
    by (simp only: np option.case pc sc simp_thms if_True)
  finally have unfold: "rrtLoop cfg rnd (Suc n) it k nodes =
     (if distance (snd newPoint) (endPos cfg) < gridSize cfg * 3
         \<and> isPathClear cfg (snd newPoint) (endPos cfg)
      then (nodes @ [newPoint], Some newPoint)
      else rrtLoop cfg rnd n (Suc it) k1 (nodes @ [newPoint]))" .
  from Suc.prems(1) have result: "(if distance (snd newPoint) (endPos cfg) < gridSize cfg * 3
         \<and> isPathClear cfg (snd newPoint) (endPos cfg)
      then (nodes @ [newPoint], Some newPoint)
      else rrtLoop cfg rnd n (Suc it) k1 (nodes @ [newPoint])) = (nodes', r)"
    by (simp only: unfold)
  show ?case
  proof (cases "distance (snd newPoint) (endPos cfg) < gridSize cfg * 3
                \<and> isPathClear cfg (snd newPoint) (endPos cfg)")
    case True
    with result have "nodes' = ?nodes" "r = Some newPoint"
      by simp_all
    with inv show ?thesis by simp
  next
    case False
    with result have "rrtLoop cfg rnd n (Suc it) k1 ?nodes = (nodes', r)"
      by simp
    from Suc.IH [OF this inv(1,2,3)] inv(4) show ?thesis by simp
  qed
qed

lemma closest_fold_member:
  "fst (foldl (\<lambda>(closest, minDist) node.
                 let dist = distance (snd node) goal
                 in if dist < minDist then (node, dist) else (closest, minDist))
              (c, d) nodes) \<in> insert c (set nodes)"
proof (induction nodes arbitrary: c d)
  case Nil
  then show ?case by simp
next
  case (Cons a nodes)
  show ?case
    using Cons.IH [of a "distance (snd a) goal"] Cons.IH [of c d]
    by (auto simp add: Let_def)
qed

lemma closestToGoal_member: "nodes \<noteq> [] \<Longrightarrow> closestToGoal cfg nodes \<in> set nodes"
  using closest_fold_member [of "endPos cfg" "hd nodes" "distance (snd (hd nodes)) (endPos cfg)" nodes]
  by (auto simp add: closestToGoal_def)

lemma rrtPlan_no_obstacles_diverges:
  assumes "obstacles cfg = []" "0 < gridSize cfg" "0 < maxIterations cfg"
  shows "rrtPlan cfg rnd = None"
proof -
  obtain nodes r where loop: "rrtLoop cfg rnd (maxIterations cfg) 0 0 [(0, startPos cfg)] = (nodes, r)"
    by (cases "rrtLoop cfg rnd (maxIterations cfg) 0 0 [(0, startPos cfg)]")
  from rrtLoop_grows [OF assms(1,2) loop] assms(3)
  have inv: "nodes \<noteq> []" "fst (hd nodes) = 0" "\<forall>m \<in> set (tl nodes). fst m \<noteq> 0"
      "2 \<le> length nodes" "\<forall>p. r = Some p \<longrightarrow> p \<in> set nodes"
    by simp_all
  from inv(1,4) obtain a b rest where nodes: "nodes = a # b # rest"
    by (cases nodes; cases "tl nodes") auto
  have pred: "findPredecessor cfg nodes c \<noteq> None" if "c \<in> set nodes" for c
  proof (cases "fst c = 0")
    case True
    have "b \<in> set nodes" "fst b \<noteq> fst c"
      using inv(3) True by (simp_all add: nodes)
    then show ?thesis
      using isPathClear_no_obstacles [OF assms(1)] by (rule findPredecessor_finds)
  next
    case False
    have "a \<in> set nodes" "fst a \<noteq> fst c"
      using inv(2) False by (simp_all add: nodes)
    then show ?thesis
      using isPathClear_no_obstacles [OF assms(1)] by (rule findPredecessor_finds)
  qed
  have walk: "rrtReconstructPath cfg nodes c = None" if "c \<in> set nodes" for c
    using rrtWalk_diverges [OF pred that] by (simp add: rrtReconstructPath_def)
  show ?thesis
  proof (cases r)
    case None
    with loop walk [OF closestToGoal_member [OF inv(1), of cfg]] show ?thesis
      by (simp add: rrtPlan_def)
  next
    case (Some p)
    with inv(5) have "p \<in> set nodes" by simp
    with loop Some walk show ?thesis by (simp add: rrtPlan_def)
  qed
qed

lemma rrtPlan_returns_nonempty:
  assumes "rrtPlan cfg rnd = Some path"
  shows "path \<noteq> [] \<and> last path = endPos cfg"
proof -
  obtain nodes r where loop: "rrtLoop cfg rnd (maxIterations cfg) 0 0 [(0, startPos cfg)] = (nodes, r)"
    by (cases "rrtLoop cfg rnd (maxIterations cfg) 0 0 [(0, startPos cfg)]")
  from assms loop obtain endPoint where "rrtReconstructPath cfg nodes endPoint = Some path"
    by (cases r) (simp_all add: rrtPlan_def)
  then show ?thesis by (auto simp add: rrtReconstructPath_def)
qed

text \<open>
  Claim C1. The claim has the tree planner return a non-empty path within
  \<^verbatim>\<open>maxIterations\<close> iterations, its path reconstruction always ending. In the scenario
  of the repository's own test, and for every stream of random numbers, the call does
  not return: the first iteration adds a second node to the tree, every node then has
  another node with a clear segment to it, and the reconstruction walks from node to
  node without end (\<open>rrtPlan_no_obstacles_diverges\<close>: so it is in every scenario without
  obstacles). The search loop itself is bounded by \<^verbatim>\<open>maxIterations\<close>, and a path that
  is returned is not empty and ends with the goal (\<open>rrtPlan_returns_nonempty\<close>).
\<close>

theorem rrt_plan_never_returns:
  "rrtPlan rrtTestConfig rnd = None"
  by (rule rrtPlan_no_obstacles_diverges) (simp_all add: rrtTestConfig_def)

subsection \<open>Clearance of the returned paths\<close>

lemma chainClear_position: "chainClear cfg node \<Longrightarrow> isPointClear cfg (node_position node)"
  by (induction cfg node rule: chainClear.induct) simp_all










































end
